theory Spec2Isabelle
  imports Main
begin

section \<open>Data model\<close>

text \<open>
  The orchestrator of \<^verbatim>\<open>src/theia/sfm/reconstruction_builder.cc\<close> works on a
  reconstruction (views and tracks, each keyed by an identifier) and on a view graph
  (views and the two-view geometry of pairs of views). Hash maps are association lists
  whose keys are meant to be distinct; identifiers are natural numbers.
\<close>

type_synonym ViewId = nat
type_synonym TrackId = nat

record CameraIntrinsicsPrior =
  focal_length_is_set :: bool

record View =
  view_name :: string
  view_is_estimated :: bool
  camera_intrinsics_prior :: CameraIntrinsicsPrior

record Track =
  track_is_estimated :: bool
  track_view_ids :: "ViewId list"

record Reconstruction =
  views :: "(ViewId \<times> View) list"
  tracks :: "(TrackId \<times> Track) list"

record 'g ViewGraph =
  vertices :: "ViewId list"
  edges :: "((ViewId \<times> ViewId) \<times> 'g) list"

datatype error = CheckFailed string | NullPointerDereference

subsection \<open>Reconstruction\<close>

text \<open>
  Modelled from the spec: the class Reconstruction (reconstruction.cc is not among the
  sources). A view has a stable identifier, a display name, an estimated flag and a
  calibration prior; a track has an estimated flag and the views that observe it. The
  queries read the two keyed collections, and a removal excises the entry of the
  identifier from its collection.
\<close>

definition ViewIds :: "Reconstruction \<Rightarrow> ViewId list" where
  "ViewIds r = map fst (views r)"

definition TrackIds :: "Reconstruction \<Rightarrow> TrackId list" where
  "TrackIds r = map fst (tracks r)"

definition NumViews :: "Reconstruction \<Rightarrow> nat" where
  "NumViews r = length (views r)"

definition NumTracks :: "Reconstruction \<Rightarrow> nat" where
  "NumTracks r = length (tracks r)"

text \<open>\<^verbatim>\<open>View(id)\<close> and \<^verbatim>\<open>Track(id)\<close> return a null pointer, here \<open>None\<close>, for an
  identifier that is not present.\<close>

definition Reconstruction_View :: "Reconstruction \<Rightarrow> ViewId \<Rightarrow> View option" where
  "Reconstruction_View r view_id = map_of (views r) view_id"

definition Reconstruction_Track :: "Reconstruction \<Rightarrow> TrackId \<Rightarrow> Track option" where
  "Reconstruction_Track r track_id = map_of (tracks r) track_id"

definition Reconstruction_RemoveView :: "Reconstruction \<Rightarrow> ViewId \<Rightarrow> Reconstruction" where
  "Reconstruction_RemoveView r view_id =
     r\<lparr>views := filter (\<lambda>(k, v). k \<noteq> view_id) (views r)\<rparr>"

definition Reconstruction_RemoveTrack :: "Reconstruction \<Rightarrow> TrackId \<Rightarrow> Reconstruction" where
  "Reconstruction_RemoveTrack r track_id =
     r\<lparr>tracks := filter (\<lambda>(k, t). k \<noteq> track_id) (tracks r)\<rparr>"

text \<open>\<^verbatim>\<open>ViewIdFromName\<close> returns the sentinel \<^verbatim>\<open>kInvalidViewId\<close>, here \<open>None\<close>, for
  a name that no view carries.\<close>

definition ViewIdFromName :: "Reconstruction \<Rightarrow> string \<Rightarrow> ViewId option" where
  "ViewIdFromName r nm =
     (case find (\<lambda>(k, v). view_name v = nm) (views r) of
        None \<Rightarrow> None
      | Some (k, v) \<Rightarrow> Some k)"

subsection \<open>View graph\<close>

text \<open>
  Modelled from the spec: the class ViewGraph (view_graph.cc is not among the sources).
  An edge is keyed by the unordered pair of its views, written smaller identifier first;
  \<^verbatim>\<open>AddEdge\<close> inserts the edge or overwrites the one of the same pair and makes both
  identifiers views of the graph; \<^verbatim>\<open>RemoveView\<close> deletes the view and every incident
  edge. The geometry is stored as the caller hands it over: the comment in
  \<^verbatim>\<open>AddMatchToViewGraph\<close> says that the view graph requires the direction smaller to
  larger and that the caller swaps.
\<close>

definition ViewGraph_NumViews :: "'g ViewGraph \<Rightarrow> nat" where
  "ViewGraph_NumViews vg = length (vertices vg)"

definition ViewGraph_NumEdges :: "'g ViewGraph \<Rightarrow> nat" where
  "ViewGraph_NumEdges vg = length (edges vg)"

definition ViewIdPair :: "ViewId \<Rightarrow> ViewId \<Rightarrow> ViewId \<times> ViewId" where
  "ViewIdPair a b = (if a < b then (a, b) else (b, a))"

definition ViewGraph_AddEdge :: "'g ViewGraph \<Rightarrow> ViewId \<Rightarrow> ViewId \<Rightarrow> 'g \<Rightarrow> 'g ViewGraph" where
  "ViewGraph_AddEdge vg a b g =
     vg\<lparr>vertices := List.insert b (List.insert a (vertices vg)),
        edges := (ViewIdPair a b, g) # filter (\<lambda>(p, i). p \<noteq> ViewIdPair a b) (edges vg)\<rparr>"

definition ViewGraph_GetEdge :: "'g ViewGraph \<Rightarrow> ViewId \<Rightarrow> ViewId \<Rightarrow> 'g option" where
  "ViewGraph_GetEdge vg a b = map_of (edges vg) (ViewIdPair a b)"

definition ViewGraph_RemoveView :: "'g ViewGraph \<Rightarrow> ViewId \<Rightarrow> 'g ViewGraph" where
  "ViewGraph_RemoveView vg view_id =
     vg\<lparr>vertices := removeAll view_id (vertices vg),
        edges := filter (\<lambda>((a, b), i). a \<noteq> view_id \<and> b \<noteq> view_id) (edges vg)\<rparr>"

section \<open>The helpers of the orchestrator\<close>

text \<open>
  \<^verbatim>\<open>CreateEstimatedSubreconstruction\<close>: copy the reconstruction, then walk the view
  identifiers of the copy and remove every view that is not estimated, then walk its
  track identifiers and remove every track that is not estimated. An identifier whose
  lookup is null is skipped.
\<close>

definition CreateEstimatedSubreconstruction :: "Reconstruction \<Rightarrow> Reconstruction" where
  "CreateEstimatedSubreconstruction input_reconstruction =
     (let subreconstruction = input_reconstruction;
          subreconstruction =
            fold (\<lambda>view_id sub.
                    case Reconstruction_View sub view_id of
                      None \<Rightarrow> sub
                    | Some view \<Rightarrow>
                        if \<not> view_is_estimated view
                        then Reconstruction_RemoveView sub view_id else sub)
                 (ViewIds subreconstruction) subreconstruction
      in fold (\<lambda>track_id sub.
                 case Reconstruction_Track sub track_id of
                   None \<Rightarrow> sub
                 | Some track \<Rightarrow>
                     if \<not> track_is_estimated track
                     then Reconstruction_RemoveTrack sub track_id else sub)
              (TrackIds subreconstruction) subreconstruction)"

text \<open>
  \<^verbatim>\<open>RemoveEstimatedViewsAndTracks\<close>: every estimated view leaves the reconstruction
  and the view graph, then every estimated track leaves the reconstruction.
\<close>

definition RemoveEstimatedViewsAndTracks ::
  "Reconstruction \<Rightarrow> 'g ViewGraph \<Rightarrow> Reconstruction \<times> 'g ViewGraph" where
  "RemoveEstimatedViewsAndTracks reconstruction view_graph =
     (let (reconstruction, view_graph) =
            fold (\<lambda>view_id (r, vg).
                    case Reconstruction_View r view_id of
                      None \<Rightarrow> (r, vg)
                    | Some view \<Rightarrow>
                        if view_is_estimated view
                        then (Reconstruction_RemoveView r view_id,
                              ViewGraph_RemoveView vg view_id)
                        else (r, vg))
                 (ViewIds reconstruction) (reconstruction, view_graph)
      in (fold (\<lambda>track_id r.
                  case Reconstruction_Track r track_id of
                    None \<Rightarrow> r
                  | Some track \<Rightarrow>
                      if track_is_estimated track
                      then Reconstruction_RemoveTrack r track_id else r)
               (TrackIds reconstruction) reconstruction,
          view_graph))"

section \<open>The reconstruction builder\<close>

record ReconstructionBuilderOptions =
  num_threads :: int
  only_calibrated_views :: bool
  reconstruct_largest_connected_component :: bool
  min_track_length :: int
  max_track_length :: int

text \<open>An image pair match carries the two-view geometry \<open>'g\<close> of the pair and the
  feature correspondences (\<^verbatim>\<open>feature1\<close>, \<^verbatim>\<open>feature2\<close>); features are of type \<open>'f\<close>.\<close>

record ('g, 'f) ImagePairMatch =
  twoview_info :: 'g
  correspondences :: "('f \<times> 'f) list"

text \<open>
  Modelled from the spec: the class TrackBuilder (track_builder.cc is not among the
  sources). \<^verbatim>\<open>AddFeatureCorrespondence\<close> records that two (view, observation) keys
  belong to the same connected component; the accumulated correspondences are kept in
  the order of their arrival.
\<close>

record 'f TrackBuilder =
  tb_min_track_length :: int
  tb_max_track_length :: int
  tb_correspondences :: "((ViewId \<times> 'f) \<times> (ViewId \<times> 'f)) list"

definition AddFeatureCorrespondence ::
  "'f TrackBuilder \<Rightarrow> ViewId \<Rightarrow> 'f \<Rightarrow> ViewId \<Rightarrow> 'f \<Rightarrow> 'f TrackBuilder" where
  "AddFeatureCorrespondence tb view_id1 feature1 view_id2 feature2 =
     tb\<lparr>tb_correspondences :=
          tb_correspondences tb @ [((view_id1, feature1), (view_id2, feature2))]\<rparr>"

text \<open>
  Modelled from the spec: the features-and-matches database, an opaque key-value
  interface of which the builder only calls enumeration and retrieval.
\<close>

record ('g, 'f) FeaturesAndMatchesDatabase =
  ImageNamesOfCameraIntrinsicsPriors :: "string list"
  GetCameraIntrinsicsPrior :: "string \<Rightarrow> CameraIntrinsicsPrior"
  ImageNamesOfMatches :: "(string \<times> string) list"
  GetImagePairMatch :: "string \<Rightarrow> string \<Rightarrow> ('g, 'f) ImagePairMatch"

record ReconstructionEstimatorSummary =
  success :: bool
  estimated_views :: "ViewId list"
  estimated_tracks :: "TrackId list"

text \<open>
  The external collaborators, taken as parameters: \<^verbatim>\<open>SwapCameras\<close> (inverts a two-view
  geometry), \<^verbatim>\<open>TrackBuilder::BuildTracks\<close>, the whole-scene estimator
  \<^verbatim>\<open>ReconstructionEstimator::Estimate\<close>, which may change the view graph and the
  reconstruction it is given, and \<^verbatim>\<open>FeatureExtractorAndMatcher::ExtractAndMatchFeatures\<close>,
  which fills the database. \<open>'w\<close> is the hidden state of the collaborators (the random
  number generator shared through the options among them).
\<close>

record ('g, 'f, 'w) Collaborators =
  SwapCameras :: "'g \<Rightarrow> 'g"
  BuildTracks :: "'f TrackBuilder \<Rightarrow> Reconstruction \<Rightarrow> Reconstruction"
  Estimate :: "'w \<Rightarrow> 'g ViewGraph \<Rightarrow> Reconstruction \<Rightarrow>
               ReconstructionEstimatorSummary \<times> 'g ViewGraph \<times> Reconstruction \<times> 'w"
  FeatureExtractorAndMatcher_ExtractAndMatchFeatures ::
    "'w \<Rightarrow> ('g, 'f) FeaturesAndMatchesDatabase \<Rightarrow> ('g, 'f) FeaturesAndMatchesDatabase \<times> 'w"

text \<open>The calls made to the track builder and to the estimator are logged, the estimator's
  with the number of tracks of the reconstruction it was handed.\<close>

datatype Call = BuildTracksCall | EstimateCall nat

text \<open>
  The members of the class. A \<^verbatim>\<open>unique_ptr\<close> that may be null is an option
  (\<open>has_feature_extractor_and_matcher\<close> for the extractor, whose state is part of
  \<open>collaborators_state\<close>). \<open>call_log\<close> is not a member: it records the calls above.
\<close>

record ('g, 'f, 'w) ReconstructionBuilder =
  options :: ReconstructionBuilderOptions
  reconstruction :: Reconstruction
  view_graph :: "'g ViewGraph"
  track_builder :: "'f TrackBuilder option"
  has_feature_extractor_and_matcher :: bool
  features_and_matches_database :: "('g, 'f) FeaturesAndMatchesDatabase option"
  image_filepaths :: "string list"
  collaborators_state :: 'w
  call_log :: "Call list"

subsection \<open>Constructors\<close>

text \<open>Both constructors check \<^verbatim>\<open>CHECK_GT(options.num_threads, 0)\<close>. The first takes over
  a reconstruction and a view graph and has neither track builder nor extractor; the
  second starts empty on a database.\<close>

definition ReconstructionBuilder_of_reconstruction ::
  "ReconstructionBuilderOptions \<Rightarrow> Reconstruction \<Rightarrow> 'g ViewGraph \<Rightarrow> 'w \<Rightarrow>
   error + ('g, 'f, 'w) ReconstructionBuilder" where
  "ReconstructionBuilder_of_reconstruction opts r vg w =
     (if \<not> num_threads opts > 0 then Inl (CheckFailed ''options.num_threads > 0'')
      else Inr \<lparr>options = opts, reconstruction = r, view_graph = vg,
                track_builder = None, has_feature_extractor_and_matcher = False,
                features_and_matches_database = None, image_filepaths = [],
                collaborators_state = w, call_log = []\<rparr>)"

definition ReconstructionBuilder_of_database ::
  "ReconstructionBuilderOptions \<Rightarrow> ('g, 'f) FeaturesAndMatchesDatabase \<Rightarrow> 'w \<Rightarrow>
   error + ('g, 'f, 'w) ReconstructionBuilder" where
  "ReconstructionBuilder_of_database opts db w =
     (if \<not> num_threads opts > 0 then Inl (CheckFailed ''options.num_threads > 0'')
      else Inr \<lparr>options = opts,
                reconstruction = \<lparr>views = [], tracks = []\<rparr>,
                view_graph = \<lparr>vertices = [], edges = []\<rparr>,
                track_builder =
                  Some \<lparr>tb_min_track_length = min_track_length opts,
                        tb_max_track_length = max_track_length opts,
                        tb_correspondences = []\<rparr>,
                has_feature_extractor_and_matcher = True,
                features_and_matches_database = Some db, image_filepaths = [],
                collaborators_state = w, call_log = []\<rparr>)"

subsection \<open>The calibration filter\<close>

text \<open>\<^verbatim>\<open>RemoveUncalibratedViews\<close> walks the view identifiers of the reconstruction and
  dereferences each view without a null check; a view without a focal length prior
  leaves the reconstruction and the view graph.\<close>

definition RemoveUncalibratedViews ::
  "('g, 'f, 'w) ReconstructionBuilder \<Rightarrow> error + ('g, 'f, 'w) ReconstructionBuilder" where
  "RemoveUncalibratedViews st =
     fold (\<lambda>view_id acc.
             case acc of
               Inl e \<Rightarrow> Inl e
             | Inr s \<Rightarrow>
                (case Reconstruction_View (reconstruction s) view_id of
                   None \<Rightarrow> Inl NullPointerDereference
                 | Some view \<Rightarrow>
                     if \<not> focal_length_is_set (camera_intrinsics_prior view)
                     then Inr (s\<lparr>reconstruction :=
                                   Reconstruction_RemoveView (reconstruction s) view_id,
                                 view_graph :=
                                   ViewGraph_RemoveView (view_graph s) view_id\<rparr>)
                     else Inr s))
          (ViewIds (reconstruction st)) (Inr st)"

subsection \<open>Ingesting a two-view match\<close>

definition AddMatchToViewGraph ::
  "('g, 'f, 'w) Collaborators \<Rightarrow> ('g, 'f, 'w) ReconstructionBuilder \<Rightarrow> ViewId \<Rightarrow> ViewId \<Rightarrow>
   ('g, 'f) ImagePairMatch \<Rightarrow> ('g, 'f, 'w) ReconstructionBuilder" where
  "AddMatchToViewGraph env st view_id1 view_id2 image_matches =
     (let info = twoview_info image_matches;
          info = (if view_id1 > view_id2 then SwapCameras env info else info)
      in st\<lparr>view_graph := ViewGraph_AddEdge (view_graph st) view_id1 view_id2 info\<rparr>)"

definition AddTracksForMatch ::
  "('g, 'f, 'w) ReconstructionBuilder \<Rightarrow> ViewId \<Rightarrow> ViewId \<Rightarrow> ('g, 'f) ImagePairMatch \<Rightarrow>
   error + ('g, 'f, 'w) ReconstructionBuilder" where
  "AddTracksForMatch st view_id1 view_id2 matches =
     fold (\<lambda>(feature1, feature2) acc.
             case acc of
               Inl e \<Rightarrow> Inl e
             | Inr s \<Rightarrow>
                (case track_builder s of
                   None \<Rightarrow> Inl NullPointerDereference
                 | Some tb \<Rightarrow>
                     Inr (s\<lparr>track_builder :=
                              Some (AddFeatureCorrespondence tb view_id1 feature1
                                      view_id2 feature2)\<rparr>)))
          (correspondences matches) (Inr st)"

definition AddTwoViewMatch ::
  "('g, 'f, 'w) Collaborators \<Rightarrow> ('g, 'f, 'w) ReconstructionBuilder \<Rightarrow> string \<Rightarrow> string \<Rightarrow>
   ('g, 'f) ImagePairMatch \<Rightarrow> error + bool \<times> ('g, 'f, 'w) ReconstructionBuilder" where
  "AddTwoViewMatch env st image1 image2 matches =
     (case ViewIdFromName (reconstruction st) image1 of
        None \<Rightarrow> Inl (CheckFailed ''view_id1 != kInvalidViewId'')
      | Some view_id1 \<Rightarrow>
     (case ViewIdFromName (reconstruction st) image2 of
        None \<Rightarrow> Inl (CheckFailed ''view_id2 != kInvalidViewId'')
      | Some view_id2 \<Rightarrow>
     (let view1 = Reconstruction_View (reconstruction st) view_id1;
          view2 = Reconstruction_View (reconstruction st) view_id2;
          add = (case AddTracksForMatch
                        (AddMatchToViewGraph env st view_id1 view_id2 matches)
                        view_id1 view_id2 matches of
                   Inl e \<Rightarrow> Inl e
                 | Inr s \<Rightarrow> Inr (True, s))
      in if only_calibrated_views (options st) then
           (case view1 of
              None \<Rightarrow> Inl NullPointerDereference
            | Some v1 \<Rightarrow>
                if \<not> focal_length_is_set (camera_intrinsics_prior v1) then Inr (True, st)
                else (case view2 of
                        None \<Rightarrow> Inl NullPointerDereference
                      | Some v2 \<Rightarrow>
                          if \<not> focal_length_is_set (camera_intrinsics_prior v2)
                          then Inr (True, st)
                          else add))
         else add)))"

subsection \<open>The one-time extract-and-match step\<close>

text \<open>\<^verbatim>\<open>MutableView(id)\<close> followed by the assignment of the prior; the caller checks
  for the null pointer.\<close>

definition SetCameraIntrinsicsPrior ::
  "Reconstruction \<Rightarrow> ViewId \<Rightarrow> CameraIntrinsicsPrior \<Rightarrow> Reconstruction" where
  "SetCameraIntrinsicsPrior r view_id p =
     r\<lparr>views := map (\<lambda>(k, v). if k = view_id
                                 then (k, v\<lparr>camera_intrinsics_prior := p\<rparr>)
                                 else (k, v)) (views r)\<rparr>"

definition ExtractAndMatchFeatures ::
  "('g, 'f, 'w) Collaborators \<Rightarrow> ('g, 'f, 'w) ReconstructionBuilder \<Rightarrow>
   error + bool \<times> ('g, 'f, 'w) ReconstructionBuilder" where
  "ExtractAndMatchFeatures env st =
     (if ViewGraph_NumViews (view_graph st) \<noteq> 0
      then Inl (CheckFailed ''Cannot call ExtractAndMatchFeatures after TwoViewMatches has been called.'')
      else if \<not> has_feature_extractor_and_matcher st then Inl NullPointerDereference
      else
       (case features_and_matches_database st of
          None \<Rightarrow> Inl NullPointerDereference
        | Some db0 \<Rightarrow>
           (let (db, w) =
                  FeatureExtractorAndMatcher_ExtractAndMatchFeatures env
                    (collaborators_state st) db0;
                st1 = st\<lparr>features_and_matches_database := Some db,
                         collaborators_state := w,
                         has_feature_extractor_and_matcher := False\<rparr>;
                with_priors =
                  fold (\<lambda>nm acc.
                          case acc of
                            Inl e \<Rightarrow> Inl e
                          | Inr s \<Rightarrow>
                             (case ViewIdFromName (reconstruction s) nm of
                                None \<Rightarrow> Inl NullPointerDereference
                              | Some view_id \<Rightarrow>
                                 (case Reconstruction_View (reconstruction s) view_id of
                                    None \<Rightarrow> Inl NullPointerDereference
                                  | Some view \<Rightarrow>
                                      Inr (s\<lparr>reconstruction :=
                                               SetCameraIntrinsicsPrior (reconstruction s)
                                                 view_id (GetCameraIntrinsicsPrior db nm)\<rparr>))))
                       (ImageNamesOfCameraIntrinsicsPriors db) (Inr st1)
            in case with_priors of
                 Inl e \<Rightarrow> Inl e
               | Inr st2 \<Rightarrow>
                  (case fold (\<lambda>(k1, k2) acc.
                                case acc of
                                  Inl e \<Rightarrow> Inl e
                                | Inr s \<Rightarrow>
                                   (case AddTwoViewMatch env s k1 k2
                                           (GetImagePairMatch db k1 k2) of
                                      Inl e \<Rightarrow> Inl e
                                    | Inr (b, s') \<Rightarrow> Inr s'))
                             (ImageNamesOfMatches db) (Inr st2) of
                     Inl e \<Rightarrow> Inl e
                   | Inr st3 \<Rightarrow> Inr (True, st3)))))"

subsection \<open>The estimation loop\<close>

text \<open>
  The \<^verbatim>\<open>while\<close> loop of \<^verbatim>\<open>BuildReconstruction\<close>. The estimator is external and may
  succeed without estimating anything, so the loop need not end: not returning is
  \<open>None\<close>. The result is the returned flag, the builder and the output list.
\<close>

partial_function (option) BuildReconstruction_loop ::
  "('g, 'f, 'w) Collaborators \<Rightarrow> ('g, 'f, 'w) ReconstructionBuilder \<Rightarrow> Reconstruction list \<Rightarrow>
   (bool \<times> ('g, 'f, 'w) ReconstructionBuilder \<times> Reconstruction list) option" where
  "BuildReconstruction_loop env st reconstructions =
     (if NumViews (reconstruction st) > 1 then
        (case Estimate env (collaborators_state st) (view_graph st) (reconstruction st) of
           (summary, vg, r, w) \<Rightarrow>
             (let st1 = st\<lparr>view_graph := vg, reconstruction := r, collaborators_state := w,
                           call_log := call_log st @ [EstimateCall (NumTracks (reconstruction st))]\<rparr>
              in if \<not> success summary then Some (length reconstructions > 0, st1, reconstructions)
                 else
                  (let reconstructions1 =
                         reconstructions @ [CreateEstimatedSubreconstruction (reconstruction st1)];
                       (r2, vg2) =
                         RemoveEstimatedViewsAndTracks (reconstruction st1) (view_graph st1);
                       st2 = st1\<lparr>reconstruction := r2, view_graph := vg2\<rparr>
                   in if reconstruct_largest_connected_component (options st2)
                      then Some (length reconstructions1 > 0, st2, reconstructions1)
                      else if NumViews (reconstruction st2) < 3
                      then Some (length reconstructions1 > 0, st2, reconstructions1)
                      else BuildReconstruction_loop env st2 reconstructions1)))
      else Some (True, st, reconstructions))"

declare BuildReconstruction_loop.simps [code]

text \<open>
  \<^verbatim>\<open>BuildReconstruction\<close>: the check on the view graph, the tracks built when the
  reconstruction has none, the calibration filter when it is configured, then the loop.
\<close>

definition BuildReconstruction ::
  "('g, 'f, 'w) Collaborators \<Rightarrow> ('g, 'f, 'w) ReconstructionBuilder \<Rightarrow> Reconstruction list \<Rightarrow>
   (error + bool \<times> ('g, 'f, 'w) ReconstructionBuilder \<times> Reconstruction list) option" where
  "BuildReconstruction env st reconstructions =
     (if \<not> ViewGraph_NumViews (view_graph st) \<ge> 2
      then Some (Inl (CheckFailed ''At least 2 images must be provided in order to create a reconstruction.''))
      else
       (case (if NumTracks (reconstruction st) = 0
              then (case track_builder st of
                      None \<Rightarrow> Inl NullPointerDereference
                    | Some tb \<Rightarrow>
                        Inr (st\<lparr>reconstruction := BuildTracks env tb (reconstruction st),
                                call_log := call_log st @ [BuildTracksCall]\<rparr>))
              else Inr st) of
          Inl e \<Rightarrow> Some (Inl e)
        | Inr st1 \<Rightarrow>
           (case (if only_calibrated_views (options st1)
                  then RemoveUncalibratedViews st1 else Inr st1) of
              Inl e \<Rightarrow> Some (Inl e)
            | Inr st2 \<Rightarrow>
               (case BuildReconstruction_loop env st2 reconstructions of
                  None \<Rightarrow> None
                | Some res \<Rightarrow> Some (Inr res)))))"

section \<open>Predicates of the statements\<close>

text \<open>A view identifier names an estimated view, or a view without a focal length prior,
  of a reconstruction.\<close>

definition is_estimated_view :: "Reconstruction \<Rightarrow> ViewId \<Rightarrow> bool" where
  "is_estimated_view r i =
     (case Reconstruction_View r i of None \<Rightarrow> False | Some v \<Rightarrow> view_is_estimated v)"

definition is_uncalibrated_view :: "Reconstruction \<Rightarrow> ViewId \<Rightarrow> bool" where
  "is_uncalibrated_view r i =
     (case Reconstruction_View r i of
        None \<Rightarrow> False
      | Some v \<Rightarrow> \<not> focal_length_is_set (camera_intrinsics_prior v))"





section \<open>Mock collaborators and example scenes\<close>

text \<open>
  The mock whole-scene estimator of the specification's testable properties: it always
  succeeds and estimates fully the connected component, in the view graph, of the first
  view of the reconstruction, with every track whose views all lie in that component.
  In the examples a two-view geometry is the pair (from, to) of the views it relates, so
  that swapping the cameras swaps the pair; a feature is a number.
\<close>

definition neighbours :: "'g ViewGraph \<Rightarrow> ViewId \<Rightarrow> ViewId list" where
  "neighbours vg v =
     concat (map (\<lambda>((a, b), g). if a = v then [b] else if b = v then [a] else []) (edges vg))"

definition component_of :: "'g ViewGraph \<Rightarrow> ViewId \<Rightarrow> ViewId list" where
  "component_of vg v =
     ((\<lambda>c. remdups (c @ concat (map (neighbours vg) c))) ^^ length (vertices vg)) [v]"

definition MockEstimate ::
  "unit \<Rightarrow> 'g ViewGraph \<Rightarrow> Reconstruction \<Rightarrow>
   ReconstructionEstimatorSummary \<times> 'g ViewGraph \<times> Reconstruction \<times> unit" where
  "MockEstimate w vg r =
     (case views r of
        [] \<Rightarrow> (\<lparr>success = False, estimated_views = [], estimated_tracks = []\<rparr>, vg, r, w)
      | (v0, x) # rest \<Rightarrow>
         (let comp = component_of vg v0;
              r1 = r\<lparr>views := map (\<lambda>(k, v). (k, if k \<in> set comp
                                                   then v\<lparr>view_is_estimated := True\<rparr> else v))
                                 (views r),
                      tracks := map (\<lambda>(k, t). (k, if list_all (\<lambda>i. i \<in> set comp) (track_view_ids t)
                                                    then t\<lparr>track_is_estimated := True\<rparr> else t))
                                  (tracks r)\<rparr>
          in (\<lparr>success = True, estimated_views = comp,
               estimated_tracks = map fst (filter (\<lambda>(k, t). track_is_estimated t) (tracks r1))\<rparr>,
              vg, r1, w)))"

text \<open>The mock track builder makes one two-view track of every correspondence.\<close>

definition MockBuildTracks :: "nat TrackBuilder \<Rightarrow> Reconstruction \<Rightarrow> Reconstruction" where
  "MockBuildTracks tb r =
     r\<lparr>tracks := tracks r @
          map (\<lambda>(i, ((v1, f1), (v2, f2))).
                 (i, \<lparr>track_is_estimated = False, track_view_ids = [v1, v2]\<rparr>))
              (enumerate (length (tracks r)) (tb_correspondences tb))\<rparr>"

definition mock_collaborators :: "(ViewId \<times> ViewId, nat, unit) Collaborators" where
  "mock_collaborators =
     \<lparr>SwapCameras = (\<lambda>(a, b). (b, a)),
      BuildTracks = MockBuildTracks,
      Estimate = MockEstimate,
      FeatureExtractorAndMatcher_ExtractAndMatchFeatures = (\<lambda>w db. (db, w))\<rparr>"

definition example_options :: "bool \<Rightarrow> bool \<Rightarrow> ReconstructionBuilderOptions" where
  "example_options calibrated_only largest =
     \<lparr>num_threads = 1, only_calibrated_views = calibrated_only,
      reconstruct_largest_connected_component = largest,
      min_track_length = 2, max_track_length = 50\<rparr>"

definition example_view :: "string \<Rightarrow> bool \<Rightarrow> View" where
  "example_view nm calibrated =
     \<lparr>view_name = nm, view_is_estimated = False,
      camera_intrinsics_prior = \<lparr>focal_length_is_set = calibrated\<rparr>\<rparr>"

definition example_track :: "ViewId list \<Rightarrow> Track" where
  "example_track vs = \<lparr>track_is_estimated = False, track_view_ids = vs\<rparr>"

text \<open>A builder made by the first constructor (no track builder, no extractor).\<close>

definition example_builder ::
  "ReconstructionBuilderOptions \<Rightarrow> Reconstruction \<Rightarrow> (ViewId \<times> ViewId) ViewGraph \<Rightarrow>
   (ViewId \<times> ViewId, nat, unit) ReconstructionBuilder" where
  "example_builder opts r vg =
     \<lparr>options = opts, reconstruction = r, view_graph = vg, track_builder = None,
      has_feature_extractor_and_matcher = False, features_and_matches_database = None,
      image_filepaths = [], collaborators_state = (), call_log = []\<rparr>"

text \<open>Two disjoint components of two views each, \<open>{0, 1}\<close> and \<open>{2, 3}\<close>.\<close>

definition scene_2_2 :: Reconstruction where
  "scene_2_2 =
     \<lparr>views = [(0, example_view ''a'' True), (1, example_view ''b'' True),
               (2, example_view ''c'' True), (3, example_view ''d'' True)],
      tracks = [(0, example_track [0, 1]), (1, example_track [2, 3])]\<rparr>"

definition graph_2_2 :: "(ViewId \<times> ViewId) ViewGraph" where
  "graph_2_2 = \<lparr>vertices = [0, 1, 2, 3], edges = [((0, 1), (0, 1)), ((2, 3), (2, 3))]\<rparr>"

text \<open>Two disjoint components, \<open>{0, 1}\<close> and \<open>{2, 3, 4}\<close>, and one track, seen by the
  views 0 and 1.\<close>

definition scene_2_3 :: Reconstruction where
  "scene_2_3 =
     \<lparr>views = [(0, example_view ''a'' True), (1, example_view ''b'' True),
               (2, example_view ''c'' True), (3, example_view ''d'' True),
               (4, example_view ''e'' True)],
      tracks = [(0, example_track [0, 1])]\<rparr>"

definition graph_2_3 :: "(ViewId \<times> ViewId) ViewGraph" where
  "graph_2_3 =
     \<lparr>vertices = [0, 1, 2, 3, 4],
      edges = [((0, 1), (0, 1)), ((2, 3), (2, 3)), ((3, 4), (3, 4))]\<rparr>"

text \<open>Two matched views without focal length prior, and a calibrated third view.\<close>

definition scene_uncalibrated :: Reconstruction where
  "scene_uncalibrated =
     \<lparr>views = [(0, example_view ''a'' False), (1, example_view ''b'' False)],
      tracks = [(0, example_track [0, 1])]\<rparr>"

definition graph_pair :: "(ViewId \<times> ViewId) ViewGraph" where
  "graph_pair = \<lparr>vertices = [0, 1], edges = [((0, 1), (0, 1))]\<rparr>"

definition scene_mixed :: Reconstruction where
  "scene_mixed =
     \<lparr>views = [(0, example_view ''a'' True), (1, example_view ''b'' False),
               (2, example_view ''c'' True)],
      tracks = [(0, example_track [0, 2])]\<rparr>"

definition graph_mixed :: "(ViewId \<times> ViewId) ViewGraph" where
  "graph_mixed = \<lparr>vertices = [0, 1, 2], edges = [((0, 1), (0, 1)), ((0, 2), (0, 2))]\<rparr>"

text \<open>The scene of the components \<open>{0, 1}\<close> and \<open>{2, 3, 4}\<close> without tracks, on a builder
  whose track builder has accumulated one correspondence between the views 0 and 1.\<close>

definition builder_with_correspondence ::
  "(ViewId \<times> ViewId, nat, unit) ReconstructionBuilder" where
  "builder_with_correspondence =
     (example_builder (example_options False False) (scene_2_3\<lparr>tracks := []\<rparr>) graph_2_3)
       \<lparr>track_builder :=
          Some \<lparr>tb_min_track_length = 2, tb_max_track_length = 50,
                tb_correspondences = [((0, 5), (1, 6))]\<rparr>\<rparr>"

text \<open>
  The property of claim C3 in the words of the specification, read on the log of calls:
  on every iteration, when the working reconstruction has no tracks, the tracks are built
  before the estimator is invoked. An estimator call that was handed no tracks must come
  right after a call that builds the tracks.
\<close>

fun tracks_built_before_estimate :: "bool \<Rightarrow> Call list \<Rightarrow> bool" where
  "tracks_built_before_estimate previous_is_build [] = True"
| "tracks_built_before_estimate previous_is_build (BuildTracksCall # calls) =
     tracks_built_before_estimate True calls"
| "tracks_built_before_estimate previous_is_build (EstimateCall n # calls) =
     ((n = 0 \<longrightarrow> previous_is_build) \<and> tracks_built_before_estimate False calls)"

text \<open>A builder made by the second constructor on a database that holds a focal length
  prior for the image a and one match, between the images a and b; the views a, b and c
  have been added.\<close>

definition example_database :: "(ViewId \<times> ViewId, nat) FeaturesAndMatchesDatabase" where
  "example_database =
     \<lparr>ImageNamesOfCameraIntrinsicsPriors = [''a''],
      GetCameraIntrinsicsPrior = (\<lambda>nm. \<lparr>focal_length_is_set = True\<rparr>),
      ImageNamesOfMatches = [(''a'', ''b'')],
      GetImagePairMatch = (\<lambda>image1 image2. \<lparr>twoview_info = (0, 1), correspondences = [(10, 11)]\<rparr>)\<rparr>"

definition builder_on_database :: "(ViewId \<times> ViewId, nat, unit) ReconstructionBuilder" where
  "builder_on_database =
     \<lparr>options = example_options False False,
      reconstruction =
        \<lparr>views = [(0, example_view ''a'' False), (1, example_view ''b'' True),
                  (2, example_view ''c'' True)],
         tracks = []\<rparr>,
      view_graph = \<lparr>vertices = [], edges = []\<rparr>,
      track_builder =
        Some \<lparr>tb_min_track_length = 2, tb_max_track_length = 50, tb_correspondences = []\<rparr>,
      has_feature_extractor_and_matcher = True,
      features_and_matches_database = Some example_database,
      image_filepaths = [''a'', ''b'', ''c''],
      collaborators_state = (), call_log = []\<rparr>"

section \<open>The removal loops in closed form\<close>

text \<open>Each loop of the source walks the keys of a hash map and removes the entries that
  satisfy a test. On an association list with distinct keys the loop is a filter.\<close>


lemma alist_step:
  assumes "distinct (map fst xs)"
  shows "(case map_of xs k of None \<Rightarrow> xs
          | Some v \<Rightarrow> if P v then filter (\<lambda>(k', v'). k' \<noteq> k) xs else xs)
         = filter (\<lambda>(k', v'). \<not> (k' = k \<and> P v')) xs"
proof (cases "map_of xs k")
  case None
  then have "k \<notin> fst ` set xs" by (simp add: map_of_eq_None_iff)
  then have "filter (\<lambda>(k', v'). \<not> (k' = k \<and> P v')) xs = xs"
    by (force simp: filter_id_conv)
  with None show ?thesis by simp
next
  case (Some v)
  have same: "v' = v" if "(k, v') \<in> set xs" for v'
    using that Some assms by simp
  show ?thesis
  proof (cases "P v")
    case True
    have "filter (\<lambda>(k', v'). k' \<noteq> k) xs = filter (\<lambda>(k', v'). \<not> (k' = k \<and> P v')) xs"
      by (rule filter_cong) (use same True in auto)
    with Some True show ?thesis by simp
  next
    case False
    have "filter (\<lambda>(k', v'). \<not> (k' = k \<and> P v')) xs = xs"
      using same False by (force simp: filter_id_conv)
    with Some False show ?thesis by simp
  qed
qed

lemma distinct_fst_filter: "distinct (map fst xs) \<Longrightarrow> distinct (map fst (filter Q xs))"
  by (simp add: distinct_map_filter)

lemma fold_alist_remove:
  assumes "distinct (map fst xs)"
  shows "fold (\<lambda>k acc. case map_of acc k of None \<Rightarrow> acc
                 | Some v \<Rightarrow> if P v then filter (\<lambda>(k', v'). k' \<noteq> k) acc else acc) ks xs
         = filter (\<lambda>(k', v'). \<not> (k' \<in> set ks \<and> P v')) xs"
  using assms
proof (induction ks arbitrary: xs)
  case Nil
  then show ?case by simp
next
  case (Cons k ks)
  let ?ys = "filter (\<lambda>(k', v'). \<not> (k' = k \<and> P v')) xs"
  have d: "distinct (map fst ?ys)" using Cons.prems by (rule distinct_fst_filter)
  let ?f = "\<lambda>k acc. case map_of acc k of None \<Rightarrow> acc
                 | Some v \<Rightarrow> if P v then filter (\<lambda>(k', v'). k' \<noteq> k) acc else acc"
  have "fold ?f (k # ks) xs = fold ?f ks (?f k xs)" by simp
  also have "?f k xs = ?ys" by (rule alist_step [OF Cons.prems])
  also have "fold ?f ks ?ys = filter (\<lambda>(k', v'). \<not> (k' \<in> set ks \<and> P v')) ?ys"
    by (rule Cons.IH [OF d])
  also have "\<dots> = filter (\<lambda>(k', v'). \<not> (k' \<in> set (k # ks) \<and> P v')) xs"
    unfolding filter_filter by (rule filter_cong) auto
  finally show ?case .
qed

lemma fold_alist_remove_all:
  assumes "distinct (map fst xs)"
  shows "fold (\<lambda>k acc. case map_of acc k of None \<Rightarrow> acc
                 | Some v \<Rightarrow> if P v then filter (\<lambda>(k', v'). k' \<noteq> k) acc else acc) (map fst xs) xs
         = filter (\<lambda>(k', v'). \<not> P v') xs"
  unfolding fold_alist_remove [OF assms]
  by (rule filter_cong) force+


lemma fold_alist_remove_pair:
  assumes "distinct (map fst xs)" and "distinct ks"
  shows "fold (\<lambda>k (acc, b). case map_of acc k of None \<Rightarrow> (acc, b)
                 | Some v \<Rightarrow> if P v then (filter (\<lambda>(k', v'). k' \<noteq> k) acc, g b k) else (acc, b))
              ks (xs, b)
         = (filter (\<lambda>(k', v'). \<not> (k' \<in> set ks \<and> P v')) xs,
            fold (\<lambda>k b. if (\<exists>v. (k, v) \<in> set xs \<and> P v) then g b k else b) ks b)"
  using assms
proof (induction ks arbitrary: xs b)
  case Nil
  then show ?case by simp
next
  case (Cons k ks)
  let ?ys = "filter (\<lambda>(k', v'). \<not> (k' = k \<and> P v')) xs"
  let ?rem = "\<lambda>zs k. \<exists>v. (k, v) \<in> set zs \<and> P v"
  let ?b1 = "if ?rem xs k then g b k else b"
  let ?f = "\<lambda>k (acc, b). case map_of acc k of None \<Rightarrow> (acc, b)
                 | Some v \<Rightarrow> if P v then (filter (\<lambda>(k', v'). k' \<noteq> k) acc, g b k) else (acc, b)"
  have d: "distinct (map fst ?ys)" using Cons.prems(1) by (rule distinct_fst_filter)
  have dk: "distinct ks" and nk: "k \<notin> set ks" using Cons.prems(2) by auto
  have first: "(case map_of xs k of None \<Rightarrow> xs
          | Some v \<Rightarrow> if P v then filter (\<lambda>(k', v'). k' \<noteq> k) xs else xs) = ?ys"
    by (rule alist_step [OF Cons.prems(1)])
  have "?rem xs k \<longleftrightarrow> (\<exists>v. map_of xs k = Some v \<and> P v)"
    using Cons.prems(1) by simp
  then have step: "?f k (xs, b) = (?ys, ?b1)"
    using first by (auto split: option.splits)
  have "fold ?f (k # ks) (xs, b) = fold ?f ks (?f k (xs, b))" by simp
  also have "\<dots> = fold ?f ks (?ys, ?b1)" by (simp only: step)
  also have "\<dots> = (filter (\<lambda>(k', v'). \<not> (k' \<in> set ks \<and> P v')) ?ys,
                    fold (\<lambda>k b. if ?rem ?ys k then g b k else b) ks ?b1)"
    by (rule Cons.IH [OF d dk])
  also have "filter (\<lambda>(k', v'). \<not> (k' \<in> set ks \<and> P v')) ?ys
             = filter (\<lambda>(k', v'). \<not> (k' \<in> set (k # ks) \<and> P v')) xs"
    unfolding filter_filter by (rule filter_cong) auto
  also have "fold (\<lambda>k b. if ?rem ?ys k then g b k else b) ks ?b1
             = fold (\<lambda>k b. if ?rem xs k then g b k else b) ks ?b1"
  proof (rule fold_cong)
    fix x assume "x \<in> set ks"
    then have "x \<noteq> k" using nk by auto
    then have "?rem ?ys x = ?rem xs x" by auto
    then show "(\<lambda>b. if ?rem ?ys x then g b x else b) = (\<lambda>b. if ?rem xs x then g b x else b)"
      by simp
  qed simp_all
  also have "\<dots> = fold (\<lambda>k b. if ?rem xs k then g b k else b) (k # ks) b" by simp
  finally show ?case .
qed

lemma vertices_fold_RemoveView:
  "vertices (fold (\<lambda>k vg. if R k then ViewGraph_RemoveView vg k else vg) ks vg)
   = filter (\<lambda>i. \<not> (i \<in> set ks \<and> R i)) (vertices vg)"
proof (induction ks arbitrary: vg)
  case Nil
  then show ?case by simp
next
  case (Cons k ks)
  show ?case
    unfolding fold_simps o_apply Cons.IH
    by (cases "R k")
      (auto simp: ViewGraph_RemoveView_def removeAll_filter_not_eq intro!: filter_cong)
qed

lemma edges_fold_RemoveView:
  "edges (fold (\<lambda>k vg. if R k then ViewGraph_RemoveView vg k else vg) ks vg)
   = filter (\<lambda>((a, b), i). \<not> (a \<in> set ks \<and> R a) \<and> \<not> (b \<in> set ks \<and> R b)) (edges vg)"
proof (induction ks arbitrary: vg)
  case Nil
  then show ?case by simp
next
  case (Cons k ks)
  show ?case
    unfolding fold_simps o_apply Cons.IH
    by (cases "R k")
      (auto simp: ViewGraph_RemoveView_def intro!: filter_cong)
qed

lemma more_fold_RemoveView:
  "ViewGraph.more (fold (\<lambda>k vg. if R k then ViewGraph_RemoveView vg k else vg) ks vg)
   = ViewGraph.more vg"
  by (induction ks arbitrary: vg) (auto simp: ViewGraph_RemoveView_def)

lemma fold_ViewGraph_RemoveView:
  "fold (\<lambda>k vg. if R k then ViewGraph_RemoveView vg k else vg) ks vg
   = vg\<lparr>vertices := filter (\<lambda>i. \<not> (i \<in> set ks \<and> R i)) (vertices vg),
        edges := filter (\<lambda>((a, b), i). \<not> (a \<in> set ks \<and> R a) \<and> \<not> (b \<in> set ks \<and> R b))
                   (edges vg)\<rparr>"
  by (rule ViewGraph.equality)
    (simp_all add: vertices_fold_RemoveView edges_fold_RemoveView more_fold_RemoveView)


lemma views_loop_alist:
  "fold (\<lambda>view_id sub.
           case Reconstruction_View sub view_id of
             None \<Rightarrow> sub
           | Some view \<Rightarrow> if P view then Reconstruction_RemoveView sub view_id else sub) ks r
   = r\<lparr>views := fold (\<lambda>k acc. case map_of acc k of None \<Rightarrow> acc
                 | Some v \<Rightarrow> if P v then filter (\<lambda>(k', v'). k' \<noteq> k) acc else acc) ks (views r)\<rparr>"
  by (induction ks arbitrary: r)
    (auto simp: Reconstruction_View_def Reconstruction_RemoveView_def split: option.splits)

lemma tracks_loop_alist:
  "fold (\<lambda>track_id sub.
           case Reconstruction_Track sub track_id of
             None \<Rightarrow> sub
           | Some track \<Rightarrow> if P track then Reconstruction_RemoveTrack sub track_id else sub) ks r
   = r\<lparr>tracks := fold (\<lambda>k acc. case map_of acc k of None \<Rightarrow> acc
                 | Some v \<Rightarrow> if P v then filter (\<lambda>(k', v'). k' \<noteq> k) acc else acc) ks (tracks r)\<rparr>"
  by (induction ks arbitrary: r)
    (auto simp: Reconstruction_Track_def Reconstruction_RemoveTrack_def split: option.splits)

lemma views_and_graph_loop_alist:
  "fold (\<lambda>view_id (r, vg).
           case Reconstruction_View r view_id of
             None \<Rightarrow> (r, vg)
           | Some view \<Rightarrow>
               if P view
               then (Reconstruction_RemoveView r view_id, ViewGraph_RemoveView vg view_id)
               else (r, vg)) ks (r, vg)
   = (case fold (\<lambda>k (acc, b). case map_of acc k of None \<Rightarrow> (acc, b)
                 | Some v \<Rightarrow> if P v then (filter (\<lambda>(k', v'). k' \<noteq> k) acc, ViewGraph_RemoveView b k)
                             else (acc, b)) ks (views r, vg) of
        (xs, vg') \<Rightarrow> (r\<lparr>views := xs\<rparr>, vg'))"
  by (induction ks arbitrary: r vg)
    (auto simp: Reconstruction_View_def Reconstruction_RemoveView_def split: option.splits)

lemma CreateEstimatedSubreconstruction_eq:
  assumes "distinct (ViewIds r)" and "distinct (TrackIds r)"
  shows "CreateEstimatedSubreconstruction r =
           r\<lparr>views := filter (\<lambda>(k, v). view_is_estimated v) (views r),
             tracks := filter (\<lambda>(k, t). track_is_estimated t) (tracks r)\<rparr>"
proof -
  have v: "distinct (map fst (views r))" and t: "distinct (map fst (tracks r))"
    using assms by (simp_all add: ViewIds_def TrackIds_def)
  show ?thesis
    unfolding CreateEstimatedSubreconstruction_def Let_def ViewIds_def TrackIds_def
      views_loop_alist tracks_loop_alist
    by (simp add: fold_alist_remove_all [OF v] fold_alist_remove_all [OF t])
qed

lemma is_estimated_view_iff:
  "distinct (ViewIds r) \<Longrightarrow>
   is_estimated_view r i \<longleftrightarrow> (\<exists>v. (i, v) \<in> set (views r) \<and> view_is_estimated v)"
  by (auto simp: is_estimated_view_def Reconstruction_View_def ViewIds_def
      split: option.splits dest: eq_key_imp_eq_value)

lemma RemoveEstimatedViewsAndTracks_eq:
  assumes "distinct (ViewIds r)" and "distinct (TrackIds r)"
  shows "RemoveEstimatedViewsAndTracks r vg =
           (r\<lparr>views := filter (\<lambda>(k, v). \<not> view_is_estimated v) (views r),
              tracks := filter (\<lambda>(k, t). \<not> track_is_estimated t) (tracks r)\<rparr>,
            vg\<lparr>vertices := filter (\<lambda>i. \<not> is_estimated_view r i) (vertices vg),
               edges := filter (\<lambda>((a, b), g). \<not> is_estimated_view r a \<and> \<not> is_estimated_view r b)
                          (edges vg)\<rparr>)"
proof -
  have v: "distinct (map fst (views r))" and t: "distinct (map fst (tracks r))"
    using assms by (simp_all add: ViewIds_def TrackIds_def)
  have fv: "filter (\<lambda>(k', v'). \<not> (k' \<in> set (map fst (views r)) \<and> view_is_estimated v')) (views r)
            = filter (\<lambda>(k, v). \<not> view_is_estimated v) (views r)"
    by (rule filter_cong) force+
  have gv: "filter (\<lambda>i. \<not> (i \<in> set (map fst (views r)) \<and>
                         (\<exists>v. (i, v) \<in> set (views r) \<and> view_is_estimated v))) (vertices vg)
            = filter (\<lambda>i. \<not> is_estimated_view r i) (vertices vg)"
    by (rule filter_cong) (force simp: is_estimated_view_iff [OF assms(1)])+
  have ge: "filter (\<lambda>((a, b), g).
                 \<not> (a \<in> set (map fst (views r)) \<and> (\<exists>v. (a, v) \<in> set (views r) \<and> view_is_estimated v)) \<and>
                 \<not> (b \<in> set (map fst (views r)) \<and> (\<exists>v. (b, v) \<in> set (views r) \<and> view_is_estimated v)))
              (edges vg)
            = filter (\<lambda>((a, b), g). \<not> is_estimated_view r a \<and> \<not> is_estimated_view r b) (edges vg)"
    by (rule filter_cong) (force simp: is_estimated_view_iff [OF assms(1)])+
  show ?thesis
    unfolding RemoveEstimatedViewsAndTracks_def Let_def ViewIds_def TrackIds_def
      views_and_graph_loop_alist tracks_loop_alist
      fold_alist_remove_pair [OF v v] fold_ViewGraph_RemoveView fv gv ge prod.case
    by (simp add: fold_alist_remove_all [OF t])
qed


lemma RemoveUncalibratedViews_loop:
  assumes "distinct (map fst (views (reconstruction st)))" and "distinct ks"
    and "set ks \<subseteq> fst ` set (views (reconstruction st))"
  shows "fold (\<lambda>view_id acc.
             case acc of
               Inl e \<Rightarrow> Inl e
             | Inr s \<Rightarrow>
                (case Reconstruction_View (reconstruction s) view_id of
                   None \<Rightarrow> Inl NullPointerDereference
                 | Some view \<Rightarrow>
                     if \<not> focal_length_is_set (camera_intrinsics_prior view)
                     then Inr (s\<lparr>reconstruction :=
                                   Reconstruction_RemoveView (reconstruction s) view_id,
                                 view_graph :=
                                   ViewGraph_RemoveView (view_graph s) view_id\<rparr>)
                     else Inr s)) ks (Inr st)
         = Inr (case fold (\<lambda>k (acc, b). case map_of acc k of None \<Rightarrow> (acc, b)
                 | Some v \<Rightarrow> if \<not> focal_length_is_set (camera_intrinsics_prior v)
                             then (filter (\<lambda>(k', v'). k' \<noteq> k) acc, ViewGraph_RemoveView b k)
                             else (acc, b)) ks (views (reconstruction st), view_graph st) of
                  (xs, vg') \<Rightarrow> st\<lparr>reconstruction := (reconstruction st)\<lparr>views := xs\<rparr>,
                                   view_graph := vg'\<rparr>)"
  using assms
proof (induction ks arbitrary: st)
  case Nil
  then show ?case by simp
next
  case (Cons k ks)
  from Cons.prems obtain v where v: "map_of (views (reconstruction st)) k = Some v"
    by (cases "map_of (views (reconstruction st)) k") (auto simp: map_of_eq_None_iff)
  have dk: "distinct ks" and nk: "k \<notin> set ks" using Cons.prems(2) by auto
  show ?case
  proof (cases "focal_length_is_set (camera_intrinsics_prior v)")
    case True
    have sub: "set ks \<subseteq> fst ` set (views (reconstruction st))" using Cons.prems(3) by auto
    show ?thesis
      using v True Cons.IH [OF Cons.prems(1) dk sub]
      by (simp add: Reconstruction_View_def)
  next
    case False
    let ?st1 = "st\<lparr>reconstruction := Reconstruction_RemoveView (reconstruction st) k,
                    view_graph := ViewGraph_RemoveView (view_graph st) k\<rparr>"
    have d1: "distinct (map fst (views (reconstruction ?st1)))"
      using Cons.prems(1) by (simp add: Reconstruction_RemoveView_def distinct_fst_filter)
    have sub: "set ks \<subseteq> fst ` set (views (reconstruction ?st1))"
      using Cons.prems(3) nk by (force simp: Reconstruction_RemoveView_def)
    show ?thesis
      using v False Cons.IH [OF d1 dk sub]
      by (simp add: Reconstruction_View_def Reconstruction_RemoveView_def split: prod.splits)
  qed
qed

lemma is_uncalibrated_view_iff:
  "distinct (ViewIds r) \<Longrightarrow>
   is_uncalibrated_view r i \<longleftrightarrow>
     (\<exists>v. (i, v) \<in> set (views r) \<and> \<not> focal_length_is_set (camera_intrinsics_prior v))"
  by (auto simp: is_uncalibrated_view_def Reconstruction_View_def ViewIds_def
      split: option.splits dest: eq_key_imp_eq_value)

lemma RemoveUncalibratedViews_eq:
  assumes "distinct (ViewIds (reconstruction st))"
  shows "RemoveUncalibratedViews st =
     Inr (st\<lparr>reconstruction := (reconstruction st)
                \<lparr>views := filter (\<lambda>(k, v). focal_length_is_set (camera_intrinsics_prior v))
                            (views (reconstruction st))\<rparr>,
             view_graph := (view_graph st)
                \<lparr>vertices := filter (\<lambda>i. \<not> is_uncalibrated_view (reconstruction st) i)
                               (vertices (view_graph st)),
                 edges := filter (\<lambda>((a, b), g). \<not> is_uncalibrated_view (reconstruction st) a \<and>
                                                \<not> is_uncalibrated_view (reconstruction st) b)
                            (edges (view_graph st))\<rparr>\<rparr>)"
proof -
  let ?r = "reconstruction st" and ?vg = "view_graph st"
  let ?U = "\<lambda>v. \<not> focal_length_is_set (camera_intrinsics_prior v)"
  have v: "distinct (map fst (views ?r))" using assms by (simp add: ViewIds_def)
  have fv: "filter (\<lambda>(k', v'). \<not> (k' \<in> set (map fst (views ?r)) \<and> ?U v')) (views ?r)
            = filter (\<lambda>(k, v). focal_length_is_set (camera_intrinsics_prior v)) (views ?r)"
    by (rule filter_cong) force+
  have gv: "filter (\<lambda>i. \<not> (i \<in> set (map fst (views ?r)) \<and>
                         (\<exists>v. (i, v) \<in> set (views ?r) \<and> ?U v))) (vertices ?vg)
            = filter (\<lambda>i. \<not> is_uncalibrated_view ?r i) (vertices ?vg)"
    by (rule filter_cong) (force simp: is_uncalibrated_view_iff [OF assms])+
  have ge: "filter (\<lambda>((a, b), g).
                 \<not> (a \<in> set (map fst (views ?r)) \<and> (\<exists>v. (a, v) \<in> set (views ?r) \<and> ?U v)) \<and>
                 \<not> (b \<in> set (map fst (views ?r)) \<and> (\<exists>v. (b, v) \<in> set (views ?r) \<and> ?U v)))
              (edges ?vg)
            = filter (\<lambda>((a, b), g). \<not> is_uncalibrated_view ?r a \<and> \<not> is_uncalibrated_view ?r b)
                (edges ?vg)"
    by (rule filter_cong) (force simp: is_uncalibrated_view_iff [OF assms])+
  have sub: "set (map fst (views ?r)) \<subseteq> fst ` set (views ?r)" by simp
  show ?thesis
    unfolding RemoveUncalibratedViews_def ViewIds_def
      RemoveUncalibratedViews_loop [OF v v sub]
      fold_alist_remove_pair [OF v v] fold_ViewGraph_RemoveView fv gv ge prod.case
    by simp
qed

section \<open>One unfolding of the estimation loop\<close>

lemma loop_success_round:
  assumes "NumViews (reconstruction st) > 1"
    and "Estimate env (collaborators_state st) (view_graph st) (reconstruction st) = (summary, vg, r, w)"
    and "success summary"
  shows "BuildReconstruction_loop env st recs =
     (let snapshot = CreateEstimatedSubreconstruction r;
          st2 = st\<lparr>collaborators_state := w,
                   call_log := call_log st @ [EstimateCall (NumTracks (reconstruction st))],
                   reconstruction := fst (RemoveEstimatedViewsAndTracks r vg),
                   view_graph := snd (RemoveEstimatedViewsAndTracks r vg)\<rparr>
      in if reconstruct_largest_connected_component (options st) \<or> NumViews (reconstruction st2) < 3
         then Some (True, st2, recs @ [snapshot])
         else BuildReconstruction_loop env st2 (recs @ [snapshot]))"
  using assms by (subst BuildReconstruction_loop.simps) (simp add: Let_def split: prod.splits)

lemma loop_failed_round:
  assumes "NumViews (reconstruction st) > 1"
    and "Estimate env (collaborators_state st) (view_graph st) (reconstruction st) = (summary, vg, r, w)"
    and "\<not> success summary"
  shows "BuildReconstruction_loop env st recs =
     Some (length recs > 0,
           st\<lparr>view_graph := vg, reconstruction := r, collaborators_state := w,
              call_log := call_log st @ [EstimateCall (NumTracks (reconstruction st))]\<rparr>,
           recs)"
  using assms by (subst BuildReconstruction_loop.simps) (simp add: Let_def split: prod.splits)

lemma loop_not_entered:
  assumes "\<not> NumViews (reconstruction st) > 1"
  shows "BuildReconstruction_loop env st recs = Some (True, st, recs)"
  using assms by (subst BuildReconstruction_loop.simps) simp

lemma BuildReconstruction_loop_cases [consumes 1, case_names not_entered failed stopped continued]:
  assumes run: "BuildReconstruction_loop env st recs = Some res"
    and not_entered: "\<And>st recs. \<not> NumViews (reconstruction st) > 1 \<Longrightarrow> P st recs (True, st, recs)"
    and failed: "\<And>st recs summary vg r w.
        NumViews (reconstruction st) > 1 \<Longrightarrow>
        Estimate env (collaborators_state st) (view_graph st) (reconstruction st) = (summary, vg, r, w) \<Longrightarrow>
        \<not> success summary \<Longrightarrow>
        P st recs (length recs > 0,
                   st\<lparr>view_graph := vg, reconstruction := r, collaborators_state := w,
                      call_log := call_log st @ [EstimateCall (NumTracks (reconstruction st))]\<rparr>,
                   recs)"
    and stopped: "\<And>st recs summary vg r w st2.
        NumViews (reconstruction st) > 1 \<Longrightarrow>
        Estimate env (collaborators_state st) (view_graph st) (reconstruction st) = (summary, vg, r, w) \<Longrightarrow>
        success summary \<Longrightarrow>
        st2 = st\<lparr>collaborators_state := w,
                 call_log := call_log st @ [EstimateCall (NumTracks (reconstruction st))],
                 reconstruction := fst (RemoveEstimatedViewsAndTracks r vg),
                 view_graph := snd (RemoveEstimatedViewsAndTracks r vg)\<rparr> \<Longrightarrow>
        reconstruct_largest_connected_component (options st) \<or> NumViews (reconstruction st2) < 3 \<Longrightarrow>
        P st recs (True, st2, recs @ [CreateEstimatedSubreconstruction r])"
    and continued: "\<And>st recs summary vg r w st2 res.
        NumViews (reconstruction st) > 1 \<Longrightarrow>
        Estimate env (collaborators_state st) (view_graph st) (reconstruction st) = (summary, vg, r, w) \<Longrightarrow>
        success summary \<Longrightarrow>
        st2 = st\<lparr>collaborators_state := w,
                 call_log := call_log st @ [EstimateCall (NumTracks (reconstruction st))],
                 reconstruction := fst (RemoveEstimatedViewsAndTracks r vg),
                 view_graph := snd (RemoveEstimatedViewsAndTracks r vg)\<rparr> \<Longrightarrow>
        \<not> reconstruct_largest_connected_component (options st) \<Longrightarrow>
        \<not> NumViews (reconstruction st2) < 3 \<Longrightarrow>
        P st2 (recs @ [CreateEstimatedSubreconstruction r]) res \<Longrightarrow>
        P st recs res"
  shows "P st recs res"
proof -
  have "env' = env \<longrightarrow> P st recs res"
    if "BuildReconstruction_loop env' st recs = Some res" for env'
    using that
  proof (induction env' st recs res
      rule: BuildReconstruction_loop.raw_induct [rotated 1, consumes 1])
    case (1 loop env' st recs res)
    show ?case
    proof
      assume e: "env' = env"
      show "P st recs res"
      proof (cases "NumViews (reconstruction st) > 1")
        case False
        with 1(2) have "res = (True, st, recs)" by simp
        with not_entered [OF False] show ?thesis by simp
      next
        case True
        obtain summary vg r w where
          est: "Estimate env (collaborators_state st) (view_graph st) (reconstruction st)
                = (summary, vg, r, w)"
          by (cases "Estimate env (collaborators_state st) (view_graph st) (reconstruction st)")
        show ?thesis
        proof (cases "success summary")
          case False
          with 1(2) True est e
          have "res = (length recs > 0,
                   st\<lparr>view_graph := vg, reconstruction := r, collaborators_state := w,
                      call_log := call_log st @ [EstimateCall (NumTracks (reconstruction st))]\<rparr>,
                   recs)"
            by (simp add: Let_def)
          with failed [OF True est False] show ?thesis by simp
        next
          case succ: True
          define st2 where "st2 = st\<lparr>collaborators_state := w,
                 call_log := call_log st @ [EstimateCall (NumTracks (reconstruction st))],
                 reconstruction := fst (RemoveEstimatedViewsAndTracks r vg),
                 view_graph := snd (RemoveEstimatedViewsAndTracks r vg)\<rparr>"
          have body: "(if reconstruct_largest_connected_component (options st) \<or>
                          NumViews (reconstruction st2) < 3
                       then Some (True, st2, recs @ [CreateEstimatedSubreconstruction r])
                       else loop env st2 (recs @ [CreateEstimatedSubreconstruction r])) = Some res"
            using 1(2) True est e succ
            by (simp add: Let_def st2_def split: prod.splits if_splits)
          show ?thesis
          proof (cases "reconstruct_largest_connected_component (options st) \<or>
                          NumViews (reconstruction st2) < 3")
            case True
            with body have "res = (True, st2, recs @ [CreateEstimatedSubreconstruction r])"
              by simp
            with stopped [OF \<open>NumViews (reconstruction st) > 1\<close> est succ st2_def True]
            show ?thesis by simp
          next
            case False
            with body have "loop env st2 (recs @ [CreateEstimatedSubreconstruction r]) = Some res"
              by simp
            from 1(1) [OF this] have "P st2 (recs @ [CreateEstimatedSubreconstruction r]) res"
              by simp
            with continued [OF \<open>NumViews (reconstruction st) > 1\<close> est succ st2_def _ _ this] False
            show ?thesis by simp
          qed
        qed
      qed
    qed
  qed
  with run show ?thesis by simp
qed

section \<open>Removals are mirrored, additions stay inside the reconstruction\<close>
















lemma RemoveUncalibratedViews_frame:
  assumes "RemoveUncalibratedViews st = Inr st1"
  shows "options st1 = options st \<and> call_log st1 = call_log st \<and>
         collaborators_state st1 = collaborators_state st \<and> track_builder st1 = track_builder st"
proof -
  let ?f = "\<lambda>view_id acc.
             case acc of
               Inl e \<Rightarrow> Inl e
             | Inr s \<Rightarrow>
                (case Reconstruction_View (reconstruction s) view_id of
                   None \<Rightarrow> Inl NullPointerDereference
                 | Some view \<Rightarrow>
                     if \<not> focal_length_is_set (camera_intrinsics_prior view)
                     then Inr (s\<lparr>reconstruction :=
                                   Reconstruction_RemoveView (reconstruction s) view_id,
                                 view_graph :=
                                   ViewGraph_RemoveView (view_graph s) view_id\<rparr>)
                     else Inr s)"
  let ?I = "\<lambda>acc. case acc of Inl e \<Rightarrow> True
              | Inr s \<Rightarrow> options s = options st \<and> call_log s = call_log st \<and>
         collaborators_state s = collaborators_state st \<and> track_builder s = track_builder st"
  have "?I (fold ?f (ViewIds (reconstruction st)) (Inr st))"
    by (rule fold_invariant [where Q = "\<lambda>x. True"])
      (auto split: sum.splits option.splits if_splits)
  with assms show ?thesis by (simp add: RemoveUncalibratedViews_def)
qed


section \<open>Lookups and errors\<close>

lemma ViewIdFromName_Some_View:
  assumes "ViewIdFromName r nm = Some k"
  shows "\<exists>v. Reconstruction_View r k = Some v"
proof -
  from assms obtain v where "find (\<lambda>(k, v). view_name v = nm) (views r) = Some (k, v)"
    by (auto simp: ViewIdFromName_def split: option.splits)
  then have "(k, v) \<in> set (views r)"
    by (auto simp: find_Some_iff) (metis nth_mem)
  then have "k \<in> fst ` set (views r)" by force
  then have "map_of (views r) k \<noteq> None"
    by (simp add: map_of_eq_None_iff)
  then show ?thesis by (auto simp: Reconstruction_View_def)
qed

lemma ViewIdPair_min_max: "ViewIdPair a b = (min a b, max a b)"
  by (simp add: ViewIdPair_def min_def max_def)

lemma GetEdge_AddEdge: "ViewGraph_GetEdge (ViewGraph_AddEdge vg a b g) a b = Some g"
  by (simp add: ViewGraph_GetEdge_def ViewGraph_AddEdge_def)

lemma RemoveUncalibratedViews_error:
  "RemoveUncalibratedViews st = Inl e \<Longrightarrow> e = NullPointerDereference"
proof -
  have "case fold (\<lambda>view_id acc.
             case acc of
               Inl e \<Rightarrow> Inl e
             | Inr s \<Rightarrow>
                (case Reconstruction_View (reconstruction s) view_id of
                   None \<Rightarrow> Inl NullPointerDereference
                 | Some view \<Rightarrow>
                     if \<not> focal_length_is_set (camera_intrinsics_prior view)
                     then Inr (s\<lparr>reconstruction :=
                                   Reconstruction_RemoveView (reconstruction s) view_id,
                                 view_graph :=
                                   ViewGraph_RemoveView (view_graph s) view_id\<rparr>)
                     else Inr s)) ks (Inr st) of Inl e \<Rightarrow> e = NullPointerDereference | Inr s \<Rightarrow> True"
    for ks
    by (rule fold_invariant [where Q = "\<lambda>x. True"]) (auto split: sum.splits option.splits)
  from this [of "ViewIds (reconstruction st)"]
  show "RemoveUncalibratedViews st = Inl e \<Longrightarrow> e = NullPointerDereference"
    unfolding RemoveUncalibratedViews_def by simp
qed

section \<open>Facts about a whole run\<close>

lemma BuildReconstruction_Inr_cases:
  assumes "BuildReconstruction env st recs = Some (Inr res)"
  obtains st1 st2 where
    "st1 = st \<and> NumTracks (reconstruction st) \<noteq> 0 \<or>
     (\<exists>tb. NumTracks (reconstruction st) = 0 \<and>
           st1 = st\<lparr>reconstruction := BuildTracks env tb (reconstruction st),
                    call_log := call_log st @ [BuildTracksCall]\<rparr>)"
    and "st2 = st1 \<or> RemoveUncalibratedViews st1 = Inr st2"
    and "BuildReconstruction_loop env st2 recs = Some res"
  using assms
  by (auto simp: BuildReconstruction_def split: if_splits sum.splits option.splits)

lemma BuildReconstruction_loop_flag:
  assumes "BuildReconstruction_loop env st recs = Some (b, st', out)"
    and "NumViews (reconstruction st) > 1"
  shows "b = (out \<noteq> [])"
proof -
  have "NumViews (reconstruction st) > 1 \<longrightarrow> fst res = (snd (snd res) \<noteq> [])"
    if "BuildReconstruction_loop env st recs = Some res" for res
    using that
  proof (induction rule: BuildReconstruction_loop_cases)
    case (continued st recs summary vg r w st2 res)
    then show ?case by auto
  qed auto
  from this [OF assms(1)] assms(2) show ?thesis by simp
qed

lemma BuildReconstruction_loop_log:
  assumes "BuildReconstruction_loop env st recs = Some (b, st', out)"
  shows "\<exists>ns. call_log st' = call_log st @ map EstimateCall ns"
proof -
  have "\<exists>ns. call_log (fst (snd res)) = call_log st @ map EstimateCall ns"
    if "BuildReconstruction_loop env st recs = Some res" for res
    using that
  proof (induction rule: BuildReconstruction_loop_cases)
    case (not_entered st recs)
    show ?case by (rule exI [of _ "[]"]) simp
  next
    case (failed st recs summary vg r w)
    show ?case by (rule exI [of _ "[NumTracks (reconstruction st)]"]) simp
  next
    case (stopped st recs summary vg r w st2)
    show ?case by (rule exI [of _ "[NumTracks (reconstruction st)]"]) (simp add: stopped(4))
  next
    case (continued st recs summary vg r w st2 res)
    from continued(7) obtain ns where
      "call_log (fst (snd res)) = call_log st2 @ map EstimateCall ns" by blast
    then show ?case
      by (intro exI [of _ "NumTracks (reconstruction st) # ns"]) (simp add: continued(4))
  qed
  from this [OF assms] show ?thesis by simp
qed

lemma BuildReconstruction_loop_largest:
  assumes "BuildReconstruction_loop env st recs = Some (b, st', out)"
    and "reconstruct_largest_connected_component (options st)"
  shows "length out \<le> length recs + 1"
proof -
  have "reconstruct_largest_connected_component (options st) \<longrightarrow>
        length (snd (snd res)) \<le> length recs + 1"
    if "BuildReconstruction_loop env st recs = Some res" for res
    using that by (induction rule: BuildReconstruction_loop_cases) auto
  from this [OF assms(1)] assms(2) show ?thesis by simp
qed

lemma BuildReconstruction_loop_prefix:
  assumes "BuildReconstruction_loop env st recs = Some (b, st', out)"
  shows "\<exists>later. out = recs @ later"
proof -
  have "\<exists>later. snd (snd res) = recs @ later"
    if "BuildReconstruction_loop env st recs = Some res" for res
    using that by (induction rule: BuildReconstruction_loop_cases) auto
  from this [OF assms] show ?thesis by simp
qed

lemma BuildReconstruction_loop_largest_returns:
  assumes "reconstruct_largest_connected_component (options st)"
  shows "\<exists>b st' out. BuildReconstruction_loop env st recs = Some (b, st', out)"
proof (cases "NumViews (reconstruction st) > 1")
  case False
  from loop_not_entered [OF this] show ?thesis by blast
next
  case True
  obtain summary vg r w where
    est: "Estimate env (collaborators_state st) (view_graph st) (reconstruction st)
          = (summary, vg, r, w)"
    by (cases "Estimate env (collaborators_state st) (view_graph st) (reconstruction st)")
  show ?thesis
  proof (cases "success summary")
    case False
    from loop_failed_round [OF True est False] show ?thesis by blast
  next
    case succ: True
    from loop_success_round [OF True est succ, of recs] assms
    have "BuildReconstruction_loop env st recs =
      Some (True,
            st\<lparr>collaborators_state := w,
               call_log := call_log st @ [EstimateCall (NumTracks (reconstruction st))],
               reconstruction := fst (RemoveEstimatedViewsAndTracks r vg),
               view_graph := snd (RemoveEstimatedViewsAndTracks r vg)\<rparr>,
            recs @ [CreateEstimatedSubreconstruction r])"
      by (simp add: Let_def)
    then show ?thesis by blast
  qed
qed

lemma BuildReconstruction_loop_largest_appends:
  assumes "BuildReconstruction_loop env st recs = Some (b, st', out)"
    and "reconstruct_largest_connected_component (options st)"
  shows "\<exists>later. out = recs @ later \<and> length later \<le> 1"
proof -
  have "reconstruct_largest_connected_component (options st) \<longrightarrow>
        (\<exists>later. snd (snd res) = recs @ later \<and> length later \<le> 1)"
    if "BuildReconstruction_loop env st recs = Some res" for res
    using that by (induction rule: BuildReconstruction_loop_cases) auto
  from this [OF assms(1)] assms(2) show ?thesis by simp
qed

lemma BuildReconstruction_largest_returns:
  assumes "reconstruct_largest_connected_component (options st)"
  shows "\<exists>res. BuildReconstruction env st recs = Some res"
proof -
  have from_filter: "\<exists>res. (case (if only_calibrated_views (options s)
                                  then RemoveUncalibratedViews s else Inr s) of
                Inl e \<Rightarrow> Some (Inl e)
              | Inr st2 \<Rightarrow>
                 (case BuildReconstruction_loop env st2 recs of
                    None \<Rightarrow> None
                  | Some res \<Rightarrow> Some (Inr res))) = Some res"
    if s: "options s = options st" for s
  proof (cases "if only_calibrated_views (options s) then RemoveUncalibratedViews s else Inr s")
    case (Inl e)
    then show ?thesis by simp
  next
    case (Inr st2)
    then have "st2 = s \<or> RemoveUncalibratedViews s = Inr st2" by (auto split: if_splits)
    with RemoveUncalibratedViews_frame have "options st2 = options s" by blast
    with s assms have "reconstruct_largest_connected_component (options st2)" by simp
    from BuildReconstruction_loop_largest_returns [OF this, of env recs] Inr
    show ?thesis by auto
  qed
  show ?thesis
  proof (cases "\<not> ViewGraph_NumViews (view_graph st) \<ge> 2")
    case True
    then show ?thesis by (simp add: BuildReconstruction_def)
  next
    case enough: False
    show ?thesis
    proof (cases "NumTracks (reconstruction st) = 0")
      case False
      with enough from_filter [of st] show ?thesis by (simp add: BuildReconstruction_def)
    next
      case True
      show ?thesis
      proof (cases "track_builder st")
        case None
        with enough True show ?thesis by (simp add: BuildReconstruction_def)
      next
        case (Some tb)
        let ?s = "st\<lparr>reconstruction := BuildTracks env tb (reconstruction st),
                      call_log := call_log st @ [BuildTracksCall]\<rparr>"
        have "options ?s = options st" by simp
        from from_filter [OF this] enough True Some show ?thesis
          by (simp add: BuildReconstruction_def)
      qed
    qed
  qed
qed

lemma AddTracksForMatch_succeeds:
  fixes st :: "('g, 'f, 'w) ReconstructionBuilder"
  assumes "track_builder st = Some tb"
  shows "\<exists>s. AddTracksForMatch st a c m = Inr s \<and> view_graph s = view_graph st"
proof -
  have "\<exists>s tb'. fold (\<lambda>(feature1, feature2) acc.
             case acc of
               Inl e \<Rightarrow> Inl e
             | Inr s \<Rightarrow>
                (case track_builder s of
                   None \<Rightarrow> Inl NullPointerDereference
                 | Some tb \<Rightarrow>
                     Inr (s\<lparr>track_builder :=
                              Some (AddFeatureCorrespondence tb a feature1 c feature2)\<rparr>)))
          cs (Inr st) = Inr s \<and> view_graph s = view_graph st \<and> track_builder s = Some tb'"
    if "track_builder st = Some tb" for cs tb and st :: "('g, 'f, 'w) ReconstructionBuilder"
    using that
  proof (induction cs arbitrary: st tb)
    case Nil
    then show ?case by simp
  next
    case (Cons x cs)
    obtain f1 f2 where x: "x = (f1, f2)" by (cases x)
    let ?s = "st\<lparr>track_builder := Some (AddFeatureCorrespondence tb a f1 c f2)\<rparr>"
    have "track_builder ?s = Some (AddFeatureCorrespondence tb a f1 c f2)" by simp
    from Cons.IH [OF this] show ?case using Cons.prems x by simp
  qed
  from this [OF assms, of "correspondences m"] show ?thesis
    by (auto simp: AddTracksForMatch_def)
qed


section \<open>The claims\<close>

text \<open>
  C1. The claim: \<^verbatim>\<open>BuildReconstruction\<close> returns true if and only if the output list
  is not empty. Every return inside the loop computes the flag from the size of the
  output list (lemma \<open>BuildReconstruction_loop_flag\<close>), but the return after the loop
  is the constant true, and it is reached exactly when no round has run. On the builder
  below (only calibrated views wanted, two matched views without focal length prior) the
  calibration filter empties the reconstruction, no round runs, and the result is true
  with an empty output list.
\<close>

theorem BuildReconstruction_true_without_reconstruction:
  "map_option (map_sum id (\<lambda>(b, st, out). (b, out, call_log st, ViewIds (reconstruction st))))
     (BuildReconstruction mock_collaborators
        (example_builder (example_options True False) scene_uncalibrated graph_pair) [])
   = Some (Inr (True, [], [], []))"
  by code_simp

text \<open>
  C2. After a successful estimation round the snapshot appended to the output list holds
  exactly the views flagged estimated and exactly the tracks flagged estimated of the
  working reconstruction, and the working reconstruction keeps exactly the others; the
  view graph loses the estimated views and every edge incident to one. The snapshot is a
  copy of its own: whatever the later rounds do to the working scene, every output list
  that the loop returns still holds the snapshot as it was taken, right after the
  reconstructions that were in the list before. The identifiers of the reconstruction
  handed back by the estimator are distinct, as the keys of a hash map are.
\<close>

theorem successful_round_snapshot_and_removal:
  assumes "NumViews (reconstruction st) > 1"
    and "Estimate env (collaborators_state st) (view_graph st) (reconstruction st) = (summary, vg, r, w)"
    and "success summary"
    and "distinct (ViewIds r)" and "distinct (TrackIds r)"
  shows "\<exists>st2 snapshot.
      views snapshot = filter (\<lambda>(k, v). view_is_estimated v) (views r) \<and>
      tracks snapshot = filter (\<lambda>(k, t). track_is_estimated t) (tracks r) \<and>
      views (reconstruction st2) = filter (\<lambda>(k, v). \<not> view_is_estimated v) (views r) \<and>
      tracks (reconstruction st2) = filter (\<lambda>(k, t). \<not> track_is_estimated t) (tracks r) \<and>
      vertices (view_graph st2) = filter (\<lambda>i. \<not> is_estimated_view r i) (vertices vg) \<and>
      edges (view_graph st2) =
        filter (\<lambda>((a, b), g). \<not> is_estimated_view r a \<and> \<not> is_estimated_view r b) (edges vg) \<and>
      BuildReconstruction_loop env st recs =
        (if reconstruct_largest_connected_component (options st) \<or> NumViews (reconstruction st2) < 3
         then Some (True, st2, recs @ [snapshot])
         else BuildReconstruction_loop env st2 (recs @ [snapshot])) \<and>
      (\<forall>b st' out. BuildReconstruction_loop env st recs = Some (b, st', out) \<longrightarrow>
         (\<exists>later. out = recs @ [snapshot] @ later))"
proof -
  let ?snapshot = "CreateEstimatedSubreconstruction r"
  let ?st2 = "st\<lparr>collaborators_state := w,
                  call_log := call_log st @ [EstimateCall (NumTracks (reconstruction st))],
                  reconstruction := fst (RemoveEstimatedViewsAndTracks r vg),
                  view_graph := snd (RemoveEstimatedViewsAndTracks r vg)\<rparr>"
  have "views ?snapshot = filter (\<lambda>(k, v). view_is_estimated v) (views r)"
    and "tracks ?snapshot = filter (\<lambda>(k, t). track_is_estimated t) (tracks r)"
    by (simp_all add: CreateEstimatedSubreconstruction_eq [OF assms(4,5)])
  moreover have "views (reconstruction ?st2) = filter (\<lambda>(k, v). \<not> view_is_estimated v) (views r)"
    and "tracks (reconstruction ?st2) = filter (\<lambda>(k, t). \<not> track_is_estimated t) (tracks r)"
    and "vertices (view_graph ?st2) = filter (\<lambda>i. \<not> is_estimated_view r i) (vertices vg)"
    and "edges (view_graph ?st2) =
        filter (\<lambda>((a, b), g). \<not> is_estimated_view r a \<and> \<not> is_estimated_view r b) (edges vg)"
    by (simp_all add: RemoveEstimatedViewsAndTracks_eq [OF assms(4,5)])
  moreover have "BuildReconstruction_loop env st recs =
        (if reconstruct_largest_connected_component (options st) \<or> NumViews (reconstruction ?st2) < 3
         then Some (True, ?st2, recs @ [?snapshot])
         else BuildReconstruction_loop env ?st2 (recs @ [?snapshot]))"
    using loop_success_round [OF assms(1,2,3), of recs] by (simp only: Let_def)
  moreover from this have "\<forall>b st' out. BuildReconstruction_loop env st recs = Some (b, st', out) \<longrightarrow>
         (\<exists>later. out = recs @ [?snapshot] @ later)"
    by (auto split: if_splits dest: BuildReconstruction_loop_prefix)
  ultimately show ?thesis by blast
qed

theorem successful_round_snapshot_and_removal_witness:
  "NumViews (reconstruction (example_builder (example_options False False) scene_2_3 graph_2_3)) > 1 \<and>
   success (fst (MockEstimate () graph_2_3 scene_2_3)) \<and>
   distinct (ViewIds (fst (snd (snd (MockEstimate () graph_2_3 scene_2_3))))) \<and>
   distinct (TrackIds (fst (snd (snd (MockEstimate () graph_2_3 scene_2_3))))) \<and>
   (\<exists>st2 snapshot.
      map fst (views snapshot) = [0, 1] \<and> map fst (tracks snapshot) = [0] \<and>
      map fst (views (reconstruction st2)) = [2, 3, 4] \<and> tracks (reconstruction st2) = [] \<and>
      vertices (view_graph st2) = [2, 3, 4] \<and>
      map fst (edges (view_graph st2)) = [(2, 3), (3, 4)] \<and>
      BuildReconstruction_loop mock_collaborators
        (example_builder (example_options False False) scene_2_3 graph_2_3) [] =
      BuildReconstruction_loop mock_collaborators st2 [snapshot])"
proof -
  let ?st = "example_builder (example_options False False) scene_2_3 graph_2_3"
  let ?E = "MockEstimate () graph_2_3 scene_2_3"
  let ?r = "fst (snd (snd ?E))"
  have h1: "NumViews (reconstruction ?st) > 1" by code_simp
  have h2: "Estimate mock_collaborators (collaborators_state ?st) (view_graph ?st) (reconstruction ?st)
            = (fst ?E, graph_2_3, ?r, ())"
    by (simp add: mock_collaborators_def example_builder_def MockEstimate_def scene_2_3_def Let_def)
  have h3: "success (fst ?E)" by code_simp
  have h4: "distinct (ViewIds ?r)" by code_simp
  have h5: "distinct (TrackIds ?r)" by code_simp
  have e1: "map fst (filter (\<lambda>(k, v). view_is_estimated v) (views ?r)) = [0, 1]" by code_simp
  have e2: "map fst (filter (\<lambda>(k, t). track_is_estimated t) (tracks ?r)) = [0]" by code_simp
  have e3: "map fst (filter (\<lambda>(k, v). \<not> view_is_estimated v) (views ?r)) = [2, 3, 4]" by code_simp
  have e4: "filter (\<lambda>(k, t). \<not> track_is_estimated t) (tracks ?r) = []" by code_simp
  have e5: "filter (\<lambda>i. \<not> is_estimated_view ?r i) (vertices graph_2_3) = [2, 3, 4]" by code_simp
  have e6: "map fst (filter (\<lambda>((a, b), g). \<not> is_estimated_view ?r a \<and> \<not> is_estimated_view ?r b)
              (edges graph_2_3)) = [(2, 3), (3, 4)]" by code_simp
  have o: "\<not> reconstruct_largest_connected_component (options ?st)" by code_simp
  from successful_round_snapshot_and_removal [OF h1 h2 h3 h4 h5, of "[]"]
  obtain st2 snapshot where
    s: "views snapshot = filter (\<lambda>(k, v). view_is_estimated v) (views ?r)"
       "tracks snapshot = filter (\<lambda>(k, t). track_is_estimated t) (tracks ?r)"
       "views (reconstruction st2) = filter (\<lambda>(k, v). \<not> view_is_estimated v) (views ?r)"
       "tracks (reconstruction st2) = filter (\<lambda>(k, t). \<not> track_is_estimated t) (tracks ?r)"
       "vertices (view_graph st2) = filter (\<lambda>i. \<not> is_estimated_view ?r i) (vertices graph_2_3)"
       "edges (view_graph st2) =
          filter (\<lambda>((a, b), g). \<not> is_estimated_view ?r a \<and> \<not> is_estimated_view ?r b) (edges graph_2_3)"
    and l: "BuildReconstruction_loop mock_collaborators ?st [] =
        (if reconstruct_largest_connected_component (options ?st) \<or> NumViews (reconstruction st2) < 3
         then Some (True, st2, [] @ [snapshot])
         else BuildReconstruction_loop mock_collaborators st2 ([] @ [snapshot]))"
    and p: "\<forall>b st' out. BuildReconstruction_loop mock_collaborators ?st [] = Some (b, st', out) \<longrightarrow>
         (\<exists>later. out = [] @ [snapshot] @ later)"
    by blast
  have n: "NumViews (reconstruction st2) = 3"
    using arg_cong [OF e3, of length] by (simp add: NumViews_def s(3))
  have "BuildReconstruction_loop mock_collaborators ?st [] =
        BuildReconstruction_loop mock_collaborators st2 [snapshot]"
    using l o n by simp
  with s e1 e2 e3 e4 e5 e6 have
    "map fst (views snapshot) = [0, 1] \<and> map fst (tracks snapshot) = [0] \<and>
      map fst (views (reconstruction st2)) = [2, 3, 4] \<and> tracks (reconstruction st2) = [] \<and>
      vertices (view_graph st2) = [2, 3, 4] \<and>
      map fst (edges (view_graph st2)) = [(2, 3), (3, 4)] \<and>
      BuildReconstruction_loop mock_collaborators ?st [] =
      BuildReconstruction_loop mock_collaborators st2 [snapshot]"
    by simp
  then have "\<exists>st2 snapshot.
      map fst (views snapshot) = [0, 1] \<and> map fst (tracks snapshot) = [0] \<and>
      map fst (views (reconstruction st2)) = [2, 3, 4] \<and> tracks (reconstruction st2) = [] \<and>
      vertices (view_graph st2) = [2, 3, 4] \<and>
      map fst (edges (view_graph st2)) = [(2, 3), (3, 4)] \<and>
      BuildReconstruction_loop mock_collaborators ?st [] =
      BuildReconstruction_loop mock_collaborators st2 [snapshot]"
    by - (rule exI [of _ st2], rule exI [of _ snapshot], assumption)
  with h1 h3 h4 h5 show ?thesis by simp
qed

text \<open>
  C3. The claim as stated (tracks are built on every iteration that finds no tracks)
  fails: on the run below the second estimator call is handed a reconstruction without
  tracks and no tracks are built before it.
\<close>

theorem tracks_not_rebuilt_counterexample:
  "map_option (map_sum id (\<lambda>(b, st, out).
       (call_log st, tracks_built_before_estimate False (call_log st), length out)))
     (BuildReconstruction mock_collaborators builder_with_correspondence [])
   = Some (Inr ([BuildTracksCall, EstimateCall 1, EstimateCall 0], False, 2))"
  by code_simp

text \<open>
  C3, as amended. \<^verbatim>\<open>BuildReconstruction\<close> builds the tracks at most once, before the
  loop, and exactly when the reconstruction has no tracks on entry; the iterations of the
  loop only call the estimator.
\<close>

theorem tracks_built_once_before_the_loop:
  assumes "BuildReconstruction env st recs = Some (Inr (b, st', out))"
  shows "\<exists>ns. call_log st' =
           call_log st @ (if NumTracks (reconstruction st) = 0 then [BuildTracksCall] else [])
             @ map EstimateCall ns"
proof -
  from assms obtain st1 st2 where
    c: "st1 = st \<and> NumTracks (reconstruction st) \<noteq> 0 \<or>
     (\<exists>tb. NumTracks (reconstruction st) = 0 \<and>
           st1 = st\<lparr>reconstruction := BuildTracks env tb (reconstruction st),
                    call_log := call_log st @ [BuildTracksCall]\<rparr>)"
    and st2: "st2 = st1 \<or> RemoveUncalibratedViews st1 = Inr st2"
    and loop: "BuildReconstruction_loop env st2 recs = Some (b, st', out)"
    by (rule BuildReconstruction_Inr_cases)
  from c have st1: "call_log st1 =
            call_log st @ (if NumTracks (reconstruction st) = 0 then [BuildTracksCall] else [])"
    by auto
  from st2 RemoveUncalibratedViews_frame have "call_log st2 = call_log st1" by blast
  with BuildReconstruction_loop_log [OF loop] st1 show ?thesis by simp
qed

theorem tracks_built_once_before_the_loop_witness:
  "\<exists>b st' out ns.
      BuildReconstruction mock_collaborators builder_with_correspondence [] = Some (Inr (b, st', out)) \<and>
      NumTracks (reconstruction builder_with_correspondence) = 0 \<and>
      call_log st' = call_log builder_with_correspondence @ [BuildTracksCall] @ map EstimateCall ns \<and>
      call_log st' = [BuildTracksCall, EstimateCall 1, EstimateCall 0]"
proof -
  have run: "map_option (map_sum id (\<lambda>(b, st, out). call_log st))
     (BuildReconstruction mock_collaborators builder_with_correspondence [])
   = Some (Inr [BuildTracksCall, EstimateCall 1, EstimateCall 0])"
    by code_simp
  then obtain b st' out where
    r: "BuildReconstruction mock_collaborators builder_with_correspondence [] = Some (Inr (b, st', out))"
    and l: "call_log st' = [BuildTracksCall, EstimateCall 1, EstimateCall 0]"
    by (cases "BuildReconstruction mock_collaborators builder_with_correspondence []")
      (auto simp: map_sum_def split: sum.splits)
  have n: "NumTracks (reconstruction builder_with_correspondence) = 0" by code_simp
  from tracks_built_once_before_the_loop [OF r] n obtain ns where
    "call_log st' = call_log builder_with_correspondence @ [BuildTracksCall] @ map EstimateCall ns"
    by auto
  with r n l show ?thesis by blast
qed

text \<open>
  C4. The claim as stated fails in both halves. With the single-component mode off, two
  disjoint components of two views each yield one reconstruction, because the loop stops
  when fewer than three views remain. With the mode on, the output list does not contain
  at most one reconstruction for every input: the reconstructions that the caller's list
  holds on entry stay in it, so a list of two comes back with three.
\<close>

theorem two_components_one_reconstruction_counterexample:
  "map_option (map_sum id (\<lambda>(b, st, out).
       (b, length out, map ViewIds out, ViewIds (reconstruction st))))
     (BuildReconstruction mock_collaborators
        (example_builder (example_options False False) scene_2_2 graph_2_2) [])
   = Some (Inr (True, 1, [[0, 1]], [2, 3])) \<and>
   map_option (map_sum id (\<lambda>(b, st, out). (b, length out, map ViewIds out)))
     (BuildReconstruction mock_collaborators
        (example_builder (example_options False True) scene_2_3 graph_2_3)
        [scene_2_2, scene_uncalibrated])
   = Some (Inr (True, 3, [[0, 1, 2, 3], [0, 1], [0, 1]]))"
  by code_simp

text \<open>
  C4, as amended. After a successful estimation round \<^verbatim>\<open>BuildReconstruction\<close> appends
  the snapshot of the round; with the single-largest-component mode on it then returns
  true at once, with the mode off it returns true when fewer than three views remain in
  the working reconstruction and goes on to a further round otherwise. With the mode on
  every call of \<^verbatim>\<open>BuildReconstruction\<close> returns, and a call that returns normally has
  appended at most one reconstruction to the output list, so an output list that was
  empty on entry contains at most one.
\<close>

theorem single_component_mode_and_continuation:
  "(NumViews (reconstruction st) > 1 \<longrightarrow>
      (\<forall>summary vg r w.
         Estimate env (collaborators_state st) (view_graph st) (reconstruction st)
           = (summary, vg, r, w) \<longrightarrow>
         success summary \<longrightarrow>
         BuildReconstruction_loop env st recs =
           (let snapshot = CreateEstimatedSubreconstruction r;
                st2 = st\<lparr>collaborators_state := w,
                         call_log := call_log st @ [EstimateCall (NumTracks (reconstruction st))],
                         reconstruction := fst (RemoveEstimatedViewsAndTracks r vg),
                         view_graph := snd (RemoveEstimatedViewsAndTracks r vg)\<rparr>
            in if reconstruct_largest_connected_component (options st)
               then Some (True, st2, recs @ [snapshot])
               else if NumViews (reconstruction st2) < 3
               then Some (True, st2, recs @ [snapshot])
               else BuildReconstruction_loop env st2 (recs @ [snapshot])))) \<and>
   (reconstruct_largest_connected_component (options st) \<longrightarrow>
      (\<exists>res. BuildReconstruction env st recs = Some res \<and>
         (\<forall>b st' out. res = Inr (b, st', out) \<longrightarrow>
            (\<exists>later. out = recs @ later \<and> length later \<le> 1) \<and>
            (recs = [] \<longrightarrow> length out \<le> 1))))"
proof (intro conjI impI allI)
  fix summary vg r w
  assume "NumViews (reconstruction st) > 1"
    and "Estimate env (collaborators_state st) (view_graph st) (reconstruction st)
           = (summary, vg, r, w)"
    and "success summary"
  from loop_success_round [OF this, of recs]
  show "BuildReconstruction_loop env st recs =
           (let snapshot = CreateEstimatedSubreconstruction r;
                st2 = st\<lparr>collaborators_state := w,
                         call_log := call_log st @ [EstimateCall (NumTracks (reconstruction st))],
                         reconstruction := fst (RemoveEstimatedViewsAndTracks r vg),
                         view_graph := snd (RemoveEstimatedViewsAndTracks r vg)\<rparr>
            in if reconstruct_largest_connected_component (options st)
               then Some (True, st2, recs @ [snapshot])
               else if NumViews (reconstruction st2) < 3
               then Some (True, st2, recs @ [snapshot])
               else BuildReconstruction_loop env st2 (recs @ [snapshot]))"
    by (simp add: Let_def)
next
  assume l: "reconstruct_largest_connected_component (options st)"
  from BuildReconstruction_largest_returns [OF l, of env recs] obtain res where
    res: "BuildReconstruction env st recs = Some res" by blast
  have "(\<exists>later. out = recs @ later \<and> length later \<le> 1) \<and> (recs = [] \<longrightarrow> length out \<le> 1)"
    if "res = Inr (b, st', out)" for b st' out
  proof -
    from res that have run: "BuildReconstruction env st recs = Some (Inr (b, st', out))" by simp
    then obtain st1 st2 where
      c: "st1 = st \<and> NumTracks (reconstruction st) \<noteq> 0 \<or>
       (\<exists>tb. NumTracks (reconstruction st) = 0 \<and>
             st1 = st\<lparr>reconstruction := BuildTracks env tb (reconstruction st),
                      call_log := call_log st @ [BuildTracksCall]\<rparr>)"
      and st2: "st2 = st1 \<or> RemoveUncalibratedViews st1 = Inr st2"
      and loop: "BuildReconstruction_loop env st2 recs = Some (b, st', out)"
      by (rule BuildReconstruction_Inr_cases)
    from c have "options st1 = options st" by auto
    moreover from st2 RemoveUncalibratedViews_frame have "options st2 = options st1" by blast
    ultimately have "reconstruct_largest_connected_component (options st2)" using l by simp
    from BuildReconstruction_loop_largest_appends [OF loop this] show ?thesis by auto
  qed
  with res
  show "\<exists>res. BuildReconstruction env st recs = Some res \<and>
         (\<forall>b st' out. res = Inr (b, st', out) \<longrightarrow>
            (\<exists>later. out = recs @ later \<and> length later \<le> 1) \<and>
            (recs = [] \<longrightarrow> length out \<le> 1))"
    by blast
qed

theorem single_component_mode_and_continuation_witness:
  "(reconstruct_largest_connected_component
      (options (example_builder (example_options False True) scene_2_3 graph_2_3)) \<and>
    NumViews (reconstruction (example_builder (example_options False True) scene_2_3 graph_2_3)) > 1 \<and>
    success (fst (MockEstimate () graph_2_3 scene_2_3)) \<and>
    BuildReconstruction_loop mock_collaborators
      (example_builder (example_options False True) scene_2_3 graph_2_3) [] =
    Some (True,
      (example_builder (example_options False True) scene_2_3 graph_2_3)
         \<lparr>collaborators_state := (),
          call_log := [EstimateCall 1],
          reconstruction := fst (RemoveEstimatedViewsAndTracks
                     (fst (snd (snd (MockEstimate () graph_2_3 scene_2_3)))) graph_2_3),
          view_graph := snd (RemoveEstimatedViewsAndTracks
                     (fst (snd (snd (MockEstimate () graph_2_3 scene_2_3)))) graph_2_3)\<rparr>,
      [CreateEstimatedSubreconstruction (fst (snd (snd (MockEstimate () graph_2_3 scene_2_3))))]) \<and>
    (\<exists>b st' out later.
       BuildReconstruction mock_collaborators
         (example_builder (example_options False True) scene_2_3 graph_2_3) []
         = Some (Inr (b, st', out)) \<and>
       out = [] @ later \<and> length later \<le> 1 \<and> length out \<le> 1 \<and> map ViewIds out = [[0, 1]])) \<and>
   (\<not> reconstruct_largest_connected_component
        (options (example_builder (example_options False False) scene_2_3 graph_2_3)) \<and>
    NumViews (reconstruction (example_builder (example_options False False) scene_2_3 graph_2_3)) > 1 \<and>
    NumViews (fst (RemoveEstimatedViewsAndTracks
                     (fst (snd (snd (MockEstimate () graph_2_3 scene_2_3)))) graph_2_3)) = 3 \<and>
    BuildReconstruction_loop mock_collaborators
      (example_builder (example_options False False) scene_2_3 graph_2_3) [] =
    BuildReconstruction_loop mock_collaborators
      ((example_builder (example_options False False) scene_2_3 graph_2_3)
         \<lparr>collaborators_state := (),
          call_log := [EstimateCall 1],
          reconstruction := fst (RemoveEstimatedViewsAndTracks
                     (fst (snd (snd (MockEstimate () graph_2_3 scene_2_3)))) graph_2_3),
          view_graph := snd (RemoveEstimatedViewsAndTracks
                     (fst (snd (snd (MockEstimate () graph_2_3 scene_2_3)))) graph_2_3)\<rparr>)
      [CreateEstimatedSubreconstruction (fst (snd (snd (MockEstimate () graph_2_3 scene_2_3))))])"
proof -
  let ?A = "example_builder (example_options False True) scene_2_3 graph_2_3"
  let ?B = "example_builder (example_options False False) scene_2_3 graph_2_3"
  let ?E = "MockEstimate () graph_2_3 scene_2_3"
  let ?r = "fst (snd (snd ?E))"
  note instA = single_component_mode_and_continuation [of ?A mock_collaborators "[]"]
  note instB = single_component_mode_and_continuation [of ?B mock_collaborators "[]"]
  have a1: "reconstruct_largest_connected_component (options ?A)" by code_simp
  have a2: "NumViews (reconstruction ?A) > 1" by code_simp
  have a3: "Estimate mock_collaborators (collaborators_state ?A) (view_graph ?A) (reconstruction ?A)
            = (fst ?E, graph_2_3, ?r, ())"
    by (simp add: mock_collaborators_def example_builder_def MockEstimate_def scene_2_3_def Let_def)
  have s: "success (fst ?E)" by code_simp
  have a6: "NumTracks (reconstruction ?A) = 1" by code_simp
  have a7: "call_log ?A = []" by code_simp
  from instA a2 a3 s
  have "BuildReconstruction_loop mock_collaborators ?A [] =
           (let snapshot = CreateEstimatedSubreconstruction ?r;
                st2 = ?A\<lparr>collaborators_state := (),
                         call_log := call_log ?A @ [EstimateCall (NumTracks (reconstruction ?A))],
                         reconstruction := fst (RemoveEstimatedViewsAndTracks ?r graph_2_3),
                         view_graph := snd (RemoveEstimatedViewsAndTracks ?r graph_2_3)\<rparr>
            in if reconstruct_largest_connected_component (options ?A)
               then Some (True, st2, [] @ [snapshot])
               else if NumViews (reconstruction st2) < 3
               then Some (True, st2, [] @ [snapshot])
               else BuildReconstruction_loop mock_collaborators st2 ([] @ [snapshot]))"
    by blast
  then have A1: "BuildReconstruction_loop mock_collaborators ?A [] =
    Some (True,
      ?A\<lparr>collaborators_state := (),
          call_log := [EstimateCall 1],
          reconstruction := fst (RemoveEstimatedViewsAndTracks ?r graph_2_3),
          view_graph := snd (RemoveEstimatedViewsAndTracks ?r graph_2_3)\<rparr>,
      [CreateEstimatedSubreconstruction ?r])"
    by (simp add: Let_def a1 a6 a7)
  have "map_option (map_sum id (\<lambda>(b, st, out). map ViewIds out))
          (BuildReconstruction mock_collaborators ?A []) = Some (Inr [[0, 1]])"
    by code_simp
  then obtain b st' out where
    run: "BuildReconstruction mock_collaborators ?A [] = Some (Inr (b, st', out))"
    and out: "map ViewIds out = [[0, 1]]"
    by (cases "BuildReconstruction mock_collaborators ?A []")
      (auto simp: map_sum_def split: sum.splits)
  from instA a1 run obtain later where
    later: "out = [] @ later" "length later \<le> 1" and le: "length out \<le> 1"
    by auto
  from run out later le have A2: "\<exists>b st' out later.
       BuildReconstruction mock_collaborators ?A [] = Some (Inr (b, st', out)) \<and>
       out = [] @ later \<and> length later \<le> 1 \<and> length out \<le> 1 \<and> map ViewIds out = [[0, 1]]"
    by - (rule exI [of _ b], rule exI [of _ st'], rule exI [of _ out], rule exI [of _ later], simp)
  have b1: "\<not> reconstruct_largest_connected_component (options ?B)" by code_simp
  have b2: "NumViews (reconstruction ?B) > 1" by code_simp
  have b3: "Estimate mock_collaborators (collaborators_state ?B) (view_graph ?B) (reconstruction ?B)
            = (fst ?E, graph_2_3, ?r, ())"
    by (simp add: mock_collaborators_def example_builder_def MockEstimate_def scene_2_3_def Let_def)
  have b5: "NumViews (fst (RemoveEstimatedViewsAndTracks ?r graph_2_3)) = 3" by code_simp
  have b6: "NumTracks (reconstruction ?B) = 1" by code_simp
  have b7: "call_log ?B = []" by code_simp
  from instB b2 b3 s
  have "BuildReconstruction_loop mock_collaborators ?B [] =
           (let snapshot = CreateEstimatedSubreconstruction ?r;
                st2 = ?B\<lparr>collaborators_state := (),
                         call_log := call_log ?B @ [EstimateCall (NumTracks (reconstruction ?B))],
                         reconstruction := fst (RemoveEstimatedViewsAndTracks ?r graph_2_3),
                         view_graph := snd (RemoveEstimatedViewsAndTracks ?r graph_2_3)\<rparr>
            in if reconstruct_largest_connected_component (options ?B)
               then Some (True, st2, [] @ [snapshot])
               else if NumViews (reconstruction st2) < 3
               then Some (True, st2, [] @ [snapshot])
               else BuildReconstruction_loop mock_collaborators st2 ([] @ [snapshot]))"
    by blast
  then have B: "BuildReconstruction_loop mock_collaborators ?B [] =
    BuildReconstruction_loop mock_collaborators
      (?B\<lparr>collaborators_state := (),
          call_log := [EstimateCall 1],
          reconstruction := fst (RemoveEstimatedViewsAndTracks ?r graph_2_3),
          view_graph := snd (RemoveEstimatedViewsAndTracks ?r graph_2_3)\<rparr>)
      [CreateEstimatedSubreconstruction ?r]"
    by (simp add: Let_def b1 b5 b6 b7)
  from a1 a2 s A1 A2 b1 b2 b5 B show ?thesis by simp
qed

text \<open>
  C5. \<^verbatim>\<open>AddMatchToViewGraph\<close> stores the two-view geometry directed from the smaller
  view identifier to the larger one. For every reading \<open>transform_from_to g a b\<close> of
  "the geometry \<open>g\<close> is the transform from view \<open>a\<close> to view \<open>b\<close>" that
  \<^verbatim>\<open>SwapCameras\<close> reverses: if the supplied geometry is the transform from the first
  view to the second, the edge stored for the pair is keyed smaller identifier first, it
  is the supplied geometry, swapped exactly when the first identifier is the greater,
  and it is the transform from the smaller identifier to the larger.
\<close>

theorem AddMatchToViewGraph_smaller_to_larger:
  assumes swap: "\<And>g a b. transform_from_to g a b \<Longrightarrow> transform_from_to (SwapCameras env g) b a"
    and given: "transform_from_to (twoview_info image_matches) view_id1 view_id2"
  shows "\<exists>g. ViewGraph_GetEdge
               (view_graph (AddMatchToViewGraph env st view_id1 view_id2 image_matches))
               view_id1 view_id2 = Some g \<and>
             hd (edges (view_graph (AddMatchToViewGraph env st view_id1 view_id2 image_matches)))
               = ((min view_id1 view_id2, max view_id1 view_id2), g) \<and>
             g = (if view_id1 > view_id2 then SwapCameras env (twoview_info image_matches)
                  else twoview_info image_matches) \<and>
             transform_from_to g (min view_id1 view_id2) (max view_id1 view_id2)"
proof -
  let ?g = "if view_id1 > view_id2 then SwapCameras env (twoview_info image_matches)
            else twoview_info image_matches"
  have "transform_from_to ?g (min view_id1 view_id2) (max view_id1 view_id2)"
    using swap [OF given] given by (auto simp: min_def max_def)
  then show ?thesis
    by (simp add: AddMatchToViewGraph_def Let_def GetEdge_AddEdge)
      (simp add: ViewGraph_AddEdge_def ViewIdPair_min_max)
qed

theorem AddMatchToViewGraph_smaller_to_larger_witness:
  "ViewGraph_GetEdge
     (view_graph (AddMatchToViewGraph mock_collaborators
        (example_builder (example_options False False) scene_mixed graph_pair) 2 1
        \<lparr>twoview_info = (2, 1), correspondences = []\<rparr>)) 2 1 = Some (1, 2) \<and>
   hd (edges (view_graph (AddMatchToViewGraph mock_collaborators
        (example_builder (example_options False False) scene_mixed graph_pair) 2 1
        \<lparr>twoview_info = (2, 1), correspondences = []\<rparr>))) = ((1, 2), (1, 2))"
proof -
  have swap: "\<And>g a b. g = (a, b) \<Longrightarrow> SwapCameras mock_collaborators g = (b, a)"
    by (simp add: mock_collaborators_def)
  have given: "twoview_info \<lparr>twoview_info = (2::nat, 1::nat), correspondences = ([] :: (nat \<times> nat) list)\<rparr> = (2, 1)"
    by simp
  from AddMatchToViewGraph_smaller_to_larger
         [where transform_from_to = "\<lambda>g a b. g = (a, b)" and env = mock_collaborators
            and st = "example_builder (example_options False False) scene_mixed graph_pair",
          OF swap given]
  show ?thesis by (simp add: mock_collaborators_def)
qed

text \<open>
  C6. A violated precondition is fatal, not an error return: each constructor fails its
  check exactly when the thread count is not positive, and \<^verbatim>\<open>BuildReconstruction\<close>
  fails a check exactly when the view graph has fewer than two views; with positive
  threads, or at least two views, no check fails.
\<close>

theorem precondition_checks_are_fatal:
  "((\<exists>m. (ReconstructionBuilder_of_reconstruction opts r vg w
            :: error + ('g, 'f, 'w) ReconstructionBuilder) = Inl (CheckFailed m))
      = (num_threads opts \<le> 0)) \<and>
   ((\<exists>m. (ReconstructionBuilder_of_database opts db w
            :: error + ('g, 'f, 'w) ReconstructionBuilder) = Inl (CheckFailed m))
      = (num_threads opts \<le> 0)) \<and>
   ((\<exists>m. BuildReconstruction env (st :: ('g, 'f, 'w) ReconstructionBuilder) reconstructions
            = Some (Inl (CheckFailed m)))
      = (ViewGraph_NumViews (view_graph st) < 2))"
proof (intro conjI)
  show "(\<exists>m. (ReconstructionBuilder_of_reconstruction opts r vg w
            :: error + ('g, 'f, 'w) ReconstructionBuilder) = Inl (CheckFailed m))
      = (num_threads opts \<le> 0)"
    by (auto simp: ReconstructionBuilder_of_reconstruction_def)
  show "(\<exists>m. (ReconstructionBuilder_of_database opts db w
            :: error + ('g, 'f, 'w) ReconstructionBuilder) = Inl (CheckFailed m))
      = (num_threads opts \<le> 0)"
    by (auto simp: ReconstructionBuilder_of_database_def)
  show "(\<exists>m. BuildReconstruction env st reconstructions = Some (Inl (CheckFailed m)))
      = (ViewGraph_NumViews (view_graph st) < 2)"
  proof (cases "ViewGraph_NumViews (view_graph st) < 2")
    case True
    then show ?thesis by (simp add: BuildReconstruction_def)
  next
    case False
    have "BuildReconstruction env st reconstructions \<noteq> Some (Inl (CheckFailed m))" for m
      using False
      by (auto simp: BuildReconstruction_def split: sum.splits option.splits if_splits
          dest: RemoveUncalibratedViews_error)
    with False show ?thesis by simp
  qed
qed

text \<open>
  C7. The calibration filter is idempotent: on a reconstruction with distinct view
  identifiers \<^verbatim>\<open>RemoveUncalibratedViews\<close> returns, and a second invocation on its
  result returns that result unchanged.
\<close>

theorem RemoveUncalibratedViews_idempotent:
  assumes "distinct (ViewIds (reconstruction st))"
  shows "\<exists>st1. RemoveUncalibratedViews st = Inr st1 \<and> RemoveUncalibratedViews st1 = Inr st1"
proof -
  let ?r = "reconstruction st" and ?vg = "view_graph st"
  let ?r1 = "?r\<lparr>views := filter (\<lambda>(k, v). focal_length_is_set (camera_intrinsics_prior v))
                            (views ?r)\<rparr>"
  let ?vg1 = "?vg\<lparr>vertices := filter (\<lambda>i. \<not> is_uncalibrated_view ?r i) (vertices ?vg),
                 edges := filter (\<lambda>((a, b), g). \<not> is_uncalibrated_view ?r a \<and>
                                                \<not> is_uncalibrated_view ?r b) (edges ?vg)\<rparr>"
  let ?st1 = "st\<lparr>reconstruction := ?r1, view_graph := ?vg1\<rparr>"
  have first: "RemoveUncalibratedViews st = Inr ?st1"
    by (rule RemoveUncalibratedViews_eq [OF assms])
  have d1: "distinct (ViewIds (reconstruction ?st1))"
    using assms by (simp add: ViewIds_def distinct_fst_filter)
  have none: "\<not> is_uncalibrated_view
                   (?r\<lparr>views := filter (\<lambda>p. focal_length_is_set (camera_intrinsics_prior (snd p)))
                                      (views ?r)\<rparr>) i" for i
    by (auto simp: is_uncalibrated_view_def Reconstruction_View_def split: option.splits
        dest!: map_of_SomeD)
  have ft: "filter (\<lambda>((a, b), g). True) es = es"
    for es :: "((ViewId \<times> ViewId) \<times> 'a) list"
    by (simp add: split_def)
  have "RemoveUncalibratedViews ?st1 = Inr ?st1"
    by (subst RemoveUncalibratedViews_eq [OF d1]) (simp add: none split_def)
  with first show ?thesis by blast
qed

theorem RemoveUncalibratedViews_idempotent_witness:
  "distinct (ViewIds (reconstruction (example_builder (example_options True False) scene_mixed graph_mixed))) \<and>
   (\<exists>st1. RemoveUncalibratedViews (example_builder (example_options True False) scene_mixed graph_mixed) = Inr st1 \<and>
          RemoveUncalibratedViews st1 = Inr st1)"
proof -
  have d: "distinct (ViewIds (reconstruction (example_builder (example_options True False) scene_mixed graph_mixed)))"
    by code_simp
  from RemoveUncalibratedViews_idempotent [OF d] d show ?thesis by blast
qed

text \<open>
  C8. The claim as stated fails in its second half: after the extract-and-match step a
  further two-view match is ingested like any other. On the builder below
  \<^verbatim>\<open>ExtractAndMatchFeatures\<close> succeeds, and \<^verbatim>\<open>AddTwoViewMatch\<close> on its result
  returns true, stores a new edge and hands the correspondence to the track builder.
\<close>

theorem ingestion_after_matching_counterexample:
  "map_sum id (\<lambda>(b, st). (b, vertices (view_graph st), has_feature_extractor_and_matcher st,
       map_sum id (\<lambda>(b', st'). (b', edges (view_graph st'),
                      map_option tb_correspondences (track_builder st')))
         (AddTwoViewMatch mock_collaborators st ''c'' ''b''
            \<lparr>twoview_info = (2, 1), correspondences = [(20, 21)]\<rparr>)))
     (ExtractAndMatchFeatures mock_collaborators builder_on_database)
   = Inr (True, [1, 0], False,
          Inr (True, [((1, 2), (1, 2)), ((0, 1), (0, 1))],
               Some [((0, 10), (1, 11)), ((2, 20), (1, 21))]))"
  by code_simp

text \<open>
  C8, as amended. Calling \<^verbatim>\<open>ExtractAndMatchFeatures\<close> when the view graph already
  contains views is a contract violation that terminates fatally. Match ingestion is not
  closed by the step: on a builder returned by \<^verbatim>\<open>ExtractAndMatchFeatures\<close>,
  \<^verbatim>\<open>AddTwoViewMatch\<close> between two known views (calibrated views not being required, and
  a track builder being present) returns true and stores the edge of the pair.
\<close>

theorem extract_and_match_checked_ingestion_unchecked:
  "(ViewGraph_NumViews (view_graph st) \<noteq> 0 \<longrightarrow>
      ExtractAndMatchFeatures env st =
        Inl (CheckFailed ''Cannot call ExtractAndMatchFeatures after TwoViewMatches has been called.'')) \<and>
   (\<forall>b0 st0 view_id1 view_id2 tb.
      ExtractAndMatchFeatures env st0 = Inr (b0, st) \<longrightarrow>
      \<not> only_calibrated_views (options st) \<longrightarrow>
      ViewIdFromName (reconstruction st) image1 = Some view_id1 \<longrightarrow>
      ViewIdFromName (reconstruction st) image2 = Some view_id2 \<longrightarrow>
      track_builder st = Some tb \<longrightarrow>
      (\<exists>st'. AddTwoViewMatch env st image1 image2 matches = Inr (True, st') \<and>
             ViewGraph_GetEdge (view_graph st') view_id1 view_id2 \<noteq> None))"
proof (intro conjI impI allI)
  assume "ViewGraph_NumViews (view_graph st) \<noteq> 0"
  then show "ExtractAndMatchFeatures env st =
        Inl (CheckFailed ''Cannot call ExtractAndMatchFeatures after TwoViewMatches has been called.'')"
    by (simp add: ExtractAndMatchFeatures_def)
next
  fix b0 st0 view_id1 view_id2 tb
  assume o: "\<not> only_calibrated_views (options st)"
    and a: "ViewIdFromName (reconstruction st) image1 = Some view_id1"
    and c: "ViewIdFromName (reconstruction st) image2 = Some view_id2"
    and tb: "track_builder st = Some tb"
  let ?st1 = "AddMatchToViewGraph env st view_id1 view_id2 matches"
  have "track_builder ?st1 = Some tb" using tb by (simp add: AddMatchToViewGraph_def Let_def)
  from AddTracksForMatch_succeeds [OF this, of view_id1 view_id2 matches] obtain s where
    s: "AddTracksForMatch ?st1 view_id1 view_id2 matches = Inr s"
    and g: "view_graph s = view_graph ?st1" by blast
  have "ViewGraph_GetEdge (view_graph ?st1) view_id1 view_id2 \<noteq> None"
    by (simp add: AddMatchToViewGraph_def Let_def GetEdge_AddEdge)
  with s g o a c
  show "\<exists>st'. AddTwoViewMatch env st image1 image2 matches = Inr (True, st') \<and>
             ViewGraph_GetEdge (view_graph st') view_id1 view_id2 \<noteq> None"
    by (simp add: AddTwoViewMatch_def Let_def)
qed

theorem extract_and_match_checked_ingestion_unchecked_witness:
  "\<exists>b0 st.
      ExtractAndMatchFeatures mock_collaborators builder_on_database = Inr (b0, st) \<and>
      ViewGraph_NumViews (view_graph st) \<noteq> 0 \<and>
      ExtractAndMatchFeatures mock_collaborators st =
        Inl (CheckFailed ''Cannot call ExtractAndMatchFeatures after TwoViewMatches has been called.'') \<and>
      \<not> only_calibrated_views (options st) \<and>
      ViewIdFromName (reconstruction st) ''c'' = Some 2 \<and>
      ViewIdFromName (reconstruction st) ''b'' = Some 1 \<and>
      (\<exists>st'. AddTwoViewMatch mock_collaborators st ''c'' ''b''
               \<lparr>twoview_info = (2, 1), correspondences = [(20, 21)]\<rparr> = Inr (True, st') \<and>
             ViewGraph_GetEdge (view_graph st') 2 1 \<noteq> None)"
proof -
  have "map_sum id (\<lambda>(b, st). (ViewGraph_NumViews (view_graph st),
          only_calibrated_views (options st), ViewIdFromName (reconstruction st) ''c'',
          ViewIdFromName (reconstruction st) ''b'',
          map_option tb_correspondences (track_builder st)))
          (ExtractAndMatchFeatures mock_collaborators builder_on_database)
        = Inr (2, False, Some 2, Some 1, Some [((0, 10), (1, 11))])"
    by code_simp
  then obtain b0 st tb where
    run: "ExtractAndMatchFeatures mock_collaborators builder_on_database = Inr (b0, st)"
    and n: "ViewGraph_NumViews (view_graph st) = 2"
    and o: "\<not> only_calibrated_views (options st)"
    and c: "ViewIdFromName (reconstruction st) ''c'' = Some 2"
    and b: "ViewIdFromName (reconstruction st) ''b'' = Some 1"
    and tb: "track_builder st = Some tb"
    by (cases "ExtractAndMatchFeatures mock_collaborators builder_on_database") auto
  note inst = extract_and_match_checked_ingestion_unchecked
    [of st mock_collaborators "''c''" "''b''" "\<lparr>twoview_info = (2, 1), correspondences = [(20, 21)]\<rparr>"]
  from n have n0: "ViewGraph_NumViews (view_graph st) \<noteq> 0" by simp
  from inst n0 have first: "ExtractAndMatchFeatures mock_collaborators st =
        Inl (CheckFailed ''Cannot call ExtractAndMatchFeatures after TwoViewMatches has been called.'')"
    by blast
  from inst run o c b tb have second:
    "\<exists>st'. AddTwoViewMatch mock_collaborators st ''c'' ''b''
               \<lparr>twoview_info = (2, 1), correspondences = [(20, 21)]\<rparr> = Inr (True, st') \<and>
             ViewGraph_GetEdge (view_graph st') 2 1 \<noteq> None"
    by blast
  from run n0 first o c b second show ?thesis
    by - (rule exI [of _ b0], rule exI [of _ st], simp)
qed



text \<open>
  C10. With the only-calibrated-views option set, a two-view match between two known
  views of which one has no focal length prior is skipped: \<^verbatim>\<open>AddTwoViewMatch\<close>
  returns true and the builder (view graph and track builder included) is unchanged.
\<close>

theorem AddTwoViewMatch_skips_uncalibrated:
  assumes "only_calibrated_views (options st)"
    and "ViewIdFromName (reconstruction st) image1 = Some view_id1"
    and "ViewIdFromName (reconstruction st) image2 = Some view_id2"
    and "is_uncalibrated_view (reconstruction st) view_id1 \<or>
         is_uncalibrated_view (reconstruction st) view_id2"
  shows "AddTwoViewMatch env st image1 image2 matches = Inr (True, st)"
proof -
  from ViewIdFromName_Some_View [OF assms(2)] obtain v1
    where v1: "Reconstruction_View (reconstruction st) view_id1 = Some v1" by blast
  from ViewIdFromName_Some_View [OF assms(3)] obtain v2
    where v2: "Reconstruction_View (reconstruction st) view_id2 = Some v2" by blast
  from assms(4) v1 v2
  have "\<not> focal_length_is_set (camera_intrinsics_prior v1) \<or>
        \<not> focal_length_is_set (camera_intrinsics_prior v2)"
    by (simp add: is_uncalibrated_view_def)
  then show ?thesis
    using assms(1,2,3) v1 v2 by (auto simp: AddTwoViewMatch_def Let_def)
qed

theorem AddTwoViewMatch_skips_uncalibrated_witness:
  "only_calibrated_views (options (example_builder (example_options True False) scene_mixed graph_pair)) \<and>
   ViewIdFromName scene_mixed ''c'' = Some 2 \<and> ViewIdFromName scene_mixed ''b'' = Some 1 \<and>
   is_uncalibrated_view scene_mixed 1 \<and>
   AddTwoViewMatch mock_collaborators
     (example_builder (example_options True False) scene_mixed graph_pair) ''c'' ''b''
     \<lparr>twoview_info = (2, 1), correspondences = [(5, 6)]\<rparr>
   = Inr (True, example_builder (example_options True False) scene_mixed graph_pair)"
proof -
  let ?st = "example_builder (example_options True False) scene_mixed graph_pair"
  have r: "reconstruction ?st = scene_mixed" by (simp add: example_builder_def)
  have h1: "only_calibrated_views (options ?st)" by code_simp
  have h2: "ViewIdFromName scene_mixed ''c'' = Some 2" by code_simp
  have h3: "ViewIdFromName scene_mixed ''b'' = Some 1" by code_simp
  have h4: "is_uncalibrated_view scene_mixed 1" by code_simp
  from AddTwoViewMatch_skips_uncalibrated [of ?st "''c''" 2 "''b''" 1 mock_collaborators
      "\<lparr>twoview_info = (2, 1), correspondences = [(5, 6)]\<rparr>"] h1 h2 h3 h4 r
  show ?thesis by simp
qed

end
